theory Spec2Isabelle
  imports Main "HOL-Library.Word" "HOL-Library.Multiset"
begin

section \<open>Maintenance scheduling of a content-addressed repository\<close>

text \<open>
  A shallow embedding of \<^verbatim>\<open>repo/maintenance/maintenance_run.go\<close>: the eligibility check
  (\<^verbatim>\<open>shouldRun\<close>), the schedule advance (\<^verbatim>\<open>updateSchedule\<close>), the exclusivity and clock
  guard (\<^verbatim>\<open>RunExclusive\<close>, \<^verbatim>\<open>checkClockSkewBounds\<close>), the two cycle bodies
  (\<^verbatim>\<open>runQuickMaintenance\<close>, \<^verbatim>\<open>runFullMaintenance\<close>) and the safety policy
  (\<^verbatim>\<open>shouldQuickRewriteContents\<close>, \<^verbatim>\<open>shouldFullRewriteContents\<close>,
  \<^verbatim>\<open>shouldDeleteOrphanedPacks\<close>, \<^verbatim>\<open>hadRecentFullRewrite\<close>, \<^verbatim>\<open>maxEndTime\<close>,
  \<^verbatim>\<open>findSafeDropTime\<close>).
\<close>

subsection \<open>Time\<close>

text \<open>
  A \<^verbatim>\<open>time.Time\<close> is an instant with nanosecond resolution; the model keeps the number of
  nanoseconds since the zero time (January 1 of year 1, 00:00:00 UTC), negative before it.
  The instants compared here are wall-clock readings (times read from the schedule and from
  blob metadata carry no monotonic reading). A \<^verbatim>\<open>time.Duration\<close> is an \<^verbatim>\<open>int64\<close> count of
  nanoseconds: a 64-bit word read as two's complement, whose negation wraps around.
\<close>

type_synonym Time = int
type_synonym Duration = "64 word"

definition minDuration :: Duration where
  "minDuration = - (2 ^ 63)"

definition maxDuration :: Duration where
  "maxDuration = 2 ^ 63 - 1"

definition Minute :: Duration where
  "Minute = 60000000000"

text \<open>\<^verbatim>\<open>t.IsZero()\<close>, \<^verbatim>\<open>t.Before(u)\<close>, \<^verbatim>\<open>t.After(u)\<close>.\<close>

definition IsZero :: "Time \<Rightarrow> bool" where
  "IsZero t \<longleftrightarrow> t = 0"

definition Before :: "Time \<Rightarrow> Time \<Rightarrow> bool" where
  "Before t u \<longleftrightarrow> t < u"

definition After :: "Time \<Rightarrow> Time \<Rightarrow> bool" where
  "After t u \<longleftrightarrow> u < t"

text \<open>
  \<^verbatim>\<open>t.Sub(u)\<close> is the duration \<^verbatim>\<open>t - u\<close>; when that does not fit a Duration, the library returns
  the minimum or the maximum Duration.
\<close>

definition Sub :: "Time \<Rightarrow> Time \<Rightarrow> Duration" where
  "Sub t u =
     (let d = t - u in
      if d < - (2 ^ 63) then minDuration
      else if 2 ^ 63 - 1 < d then maxDuration
      else word_of_int d)"

text \<open>\<^verbatim>\<open>t.Add(d)\<close>.\<close>

definition Add :: "Time \<Rightarrow> Duration \<Rightarrow> Time" where
  "Add t d = t + sint d"

subsection \<open>Modes, task identifiers, errors\<close>

text \<open>\<^verbatim>\<open>Mode\<close> and \<^verbatim>\<open>TaskType\<close> are string types in the source, with named constants.\<close>

type_synonym Mode = string

definition ModeNone :: Mode where "ModeNone = ''none''"
definition ModeQuick :: Mode where "ModeQuick = ''quick''"
definition ModeFull :: Mode where "ModeFull = ''full''"
definition ModeAuto :: Mode where "ModeAuto = ''auto''"

type_synonym TaskType = string

definition TaskSnapshotGarbageCollection :: TaskType where
  "TaskSnapshotGarbageCollection = ''snapshot-gc''"
definition TaskDeleteOrphanedBlobsQuick :: TaskType where
  "TaskDeleteOrphanedBlobsQuick = ''quick-delete-blobs''"
definition TaskDeleteOrphanedBlobsFull :: TaskType where
  "TaskDeleteOrphanedBlobsFull = ''full-delete-blobs''"
definition TaskRewriteContentsQuick :: TaskType where
  "TaskRewriteContentsQuick = ''quick-rewrite-contents''"
definition TaskRewriteContentsFull :: TaskType where
  "TaskRewriteContentsFull = ''full-rewrite-contents''"
definition TaskDropDeletedContentsFull :: TaskType where
  "TaskDropDeletedContentsFull = ''full-drop-deleted-content''"
definition TaskIndexCompaction :: TaskType where
  "TaskIndexCompaction = ''index-compaction''"
definition TaskCleanupLogs :: TaskType where
  "TaskCleanupLogs = ''cleanup-logs''"
definition TaskCleanupEpochManager :: TaskType where
  "TaskCleanupEpochManager = ''cleanup-epoch-manager''"

text \<open>
  Errors are values. \<open>Wrap err msg\<close> is \<^verbatim>\<open>errors.Wrap(err, msg)\<close>, \<open>Errorf msg\<close> an error
  made from a message (also the failures the collaborators report), \<open>NotOwnedError owner\<close>
  the source's \<^verbatim>\<open>NotOwnedError{Owner}\<close>. A nil error is \<open>None\<close>.
\<close>

datatype error =
    NotOwnedError string
  | Errorf string
  | Wrap error string

definition maxClockSkew :: Duration where
  "maxClockSkew = 5 * Minute"

subsection \<open>Data model\<close>

text \<open>
  The types \<^verbatim>\<open>RunInfo\<close>, \<^verbatim>\<open>Schedule\<close>, \<^verbatim>\<open>Params\<close> and \<^verbatim>\<open>SafetyParameters\<close> are declared in
  files of the package that are not part of the sources at hand. The records below carry the
  fields that the data model of the specification (section 3) lists and that
  \<^verbatim>\<open>maintenance_run.go\<close> reads.
\<close>

text \<open>
  Modelled from the spec: the type \<^verbatim>\<open>RunInfo\<close> is missing from the sources. One
  historical execution record: start timestamp, end timestamp, success flag.
\<close>

record RunInfo =
  Start :: Time
  End :: Time
  Success :: bool

text \<open>
  Modelled from the spec: the type \<^verbatim>\<open>Schedule\<close> is missing from the sources. The two
  next-due times and a mapping from task type to a sequence of run records.
\<close>

record Schedule =
  NextFullMaintenanceTime :: Time
  NextQuickMaintenanceTime :: Time
  Runs :: "TaskType \<rightharpoonup> RunInfo list"

text \<open>
  Modelled from the spec: the type of \<^verbatim>\<open>Params.FullCycle\<close> and \<^verbatim>\<open>Params.QuickCycle\<close> is
  missing from the sources. Each cycle has an enabled flag and an interval.
\<close>

record CycleParams =
  Enabled :: bool
  Interval :: Duration

text \<open>
  Modelled from the spec: the type \<^verbatim>\<open>Params\<close> is missing from the sources. The owner
  identity and the two cycles; \<^verbatim>\<open>LogRetention\<close> is only handed on to the log cleanup task
  and is left out.
\<close>

record Params =
  Owner :: string
  QuickCycle :: CycleParams
  FullCycle :: CycleParams

text \<open>
  Modelled from the spec: the type \<^verbatim>\<open>SafetyParameters\<close> is missing from the sources. The
  four safety margins of section 3.
\<close>

record SafetyParameters =
  RequireTwoGCCycles :: bool
  MinRewriteToOrphanDeletionDelay :: Duration
  MarginBetweenSnapshotGC :: Duration
  DropContentFromIndexExtraMargin :: Duration

text \<open>
  \<^verbatim>\<open>RunParameters\<close>; its \<^verbatim>\<open>rep\<close> field, the repository handle, is passed along as the
  \<open>Repository\<close> argument of every function below.
\<close>

record RunParameters =
  Mode :: Mode
  Params :: Params
  MaintenanceStartTime :: Time

text \<open>\<^verbatim>\<open>s.Runs[taskType]\<close>: reading a key that is absent from a Go map gives the nil slice.\<close>

definition runsOf :: "Schedule \<Rightarrow> TaskType \<Rightarrow> RunInfo list" where
  "runsOf s t = (case Runs s t of None \<Rightarrow> [] | Some rs \<Rightarrow> rs)"

subsection \<open>The repository and its collaborators\<close>

text \<open>
  What the maintenance code observes and changes through the repository handle. The
  collaborators (blob storage, the lock file, the epoch manager, the task bodies) are outside
  the sources, so their answers are fields of the state: every function below is defined for
  any answers they may give. The events record, in order, the task bodies that ran, the
  lock operations and the informational messages that tell why a step was skipped.
\<close>

datatype event =
    Ran TaskType
  | InfoNotRewritingContents
  | InfoSkippingBlobDeletion
  | InfoNotEnoughTimeSinceGC
  | InfoFoundSafeDropTime Time
  | LockAcquired
  | LockReleased
  | IndexesRefreshed

record Repository =
  UsernameAtHost :: string
  repTime :: Time
  indexRefreshDisabled :: bool
  paramsBlob :: "error + Params"
  scheduleBlob :: "error + Schedule"
  setScheduleError :: "error option"
  scheduleBlobTimestamp :: "error + Time"
  epochManagerOk :: bool
  epochManagerErr :: "error option"
  tryLockResult :: "error + bool"
  refreshError :: "error option"
  taskOutcome :: "TaskType \<Rightarrow> error option"
  taskDuration :: "TaskType \<Rightarrow> nat"
  events :: "event list"

text \<open>
  \<open>UsernameAtHost\<close> is \<^verbatim>\<open>rep.ClientOptions().UsernameAtHost()\<close> and \<open>repTime\<close> is
  \<^verbatim>\<open>rep.Time()\<close>, the repository clock: it advances while a task body runs (by
  \<open>taskDuration\<close>) and reads the same between two task bodies. \<open>epochManagerOk\<close> and
  \<open>epochManagerErr\<close> are the second and third result of
  \<^verbatim>\<open>rep.ContentManager().EpochManager()\<close>; \<open>tryLockResult\<close> is what \<^verbatim>\<open>TryLock\<close> on the lock
  file answers; \<open>scheduleBlobTimestamp\<close> is the timestamp of
  \<^verbatim>\<open>GetMetadata(maintenanceScheduleBlobID)\<close>; \<open>refreshError\<close> is the result of
  \<^verbatim>\<open>rep.Refresh\<close>; \<open>taskOutcome\<close> is the error each task body returns.
\<close>

definition logEvent :: "event \<Rightarrow> Repository \<Rightarrow> Repository" where
  "logEvent e rep = rep\<lparr>events := events rep @ [e]\<rparr>"

text \<open>
  Modelled from the spec: \<^verbatim>\<open>GetParams\<close> is missing from the sources. Section 4.3, step 2:
  load the parameters; a storage error is returned to the caller.
\<close>

definition GetParams :: "Repository \<Rightarrow> error + Params" where
  "GetParams rep = paramsBlob rep"

text \<open>
  Modelled from the spec: \<^verbatim>\<open>GetSchedule\<close> is missing from the sources. Section 4.1: load
  the current schedule, propagating storage errors.
\<close>

definition GetSchedule :: "Repository \<Rightarrow> error + Schedule" where
  "GetSchedule rep = scheduleBlob rep"

text \<open>
  Modelled from the spec: \<^verbatim>\<open>SetSchedule\<close> is missing from the sources. Section 4.1: persist
  the schedule; section 5: every write replaces it as a whole. A write that fails leaves the
  stored schedule as it was.
\<close>

definition SetSchedule :: "Repository \<Rightarrow> Schedule \<Rightarrow> error option \<times> Repository" where
  "SetSchedule rep s =
     (case setScheduleError rep of
        Some err \<Rightarrow> (Some err, rep)
      | None \<Rightarrow> (None, rep\<lparr>scheduleBlob := Inr s\<rparr>))"

text \<open>
  Modelled from the spec: \<^verbatim>\<open>isOwnedByByThisUser\<close> is missing from the sources. Section 4.3,
  step 2: the caller's identity equals \<^verbatim>\<open>Params.Owner\<close>.
\<close>

definition isOwnedByByThisUser :: "Params \<Rightarrow> Repository \<Rightarrow> bool" where
  "isOwnedByByThisUser p rep \<longleftrightarrow> Owner p = UsernameAtHost rep"

subsection \<open>Eligibility and schedule advance\<close>

text \<open>
  \<^verbatim>\<open>shouldRun\<close> (lines 51-87). The source returns a pair of a mode and an error; on an error
  the mode is \<^verbatim>\<open>ModeNone\<close>.
\<close>

definition shouldRun :: "Repository \<Rightarrow> Params \<Rightarrow> Mode \<times> error option" where
  "shouldRun rep p =
     (if Owner p \<noteq> UsernameAtHost rep then (ModeNone, None)
      else
        case GetSchedule rep of
          Inl err \<Rightarrow> (ModeNone, Some (Wrap err ''error getting status''))
        | Inr s \<Rightarrow>
            if Enabled (FullCycle p) \<and> \<not> Before (repTime rep) (NextFullMaintenanceTime s)
            then (ModeFull, None)
            else if Enabled (QuickCycle p) \<and> \<not> Before (repTime rep) (NextQuickMaintenanceTime s)
            then (ModeQuick, None)
            else (ModeNone, None))"

text \<open>\<^verbatim>\<open>updateSchedule\<close> (lines 89-117).\<close>

definition updateSchedule :: "Repository \<Rightarrow> RunParameters \<Rightarrow> error option \<times> Repository" where
  "updateSchedule rep runParams =
     (let p = Params runParams in
      case GetSchedule rep of
        Inl err \<Rightarrow> (Some (Wrap err ''error getting schedule''), rep)
      | Inr s \<Rightarrow>
          if Mode runParams = ModeFull then
            SetSchedule rep
              (s\<lparr>NextFullMaintenanceTime := Add (repTime rep) (Interval (FullCycle p)),
                 NextQuickMaintenanceTime := Add (repTime rep) (Interval (QuickCycle p))\<rparr>)
          else if Mode runParams = ModeQuick then
            SetSchedule rep
              (s\<lparr>NextQuickMaintenanceTime := Add (repTime rep) (Interval (QuickCycle p))\<rparr>)
          else (None, rep))"

subsection \<open>Clock skew\<close>

text \<open>\<^verbatim>\<open>checkClockSkewBounds\<close> (lines 218-232); the comparisons are those of \<^verbatim>\<open>int64\<close>.\<close>

definition checkClockSkewBounds :: "Repository \<Rightarrow> RunParameters \<Rightarrow> error option" where
  "checkClockSkewBounds rep rp =
     (let localTime = repTime rep;
          repoTime = MaintenanceStartTime rp;
          clockSkew = Sub repoTime localTime;
          clockSkew = (if sint clockSkew < 0 then - clockSkew else clockSkew)
      in if sint maxClockSkew < sint clockSkew
         then Some (Errorf ''Clock skew detected: local clock is out of sync with repository timestamp'')
         else None)"

subsection \<open>Safety policy\<close>

text \<open>
  \<^verbatim>\<open>maxEndTime\<close> (lines 499-515): the two nested loops, with the running \<^verbatim>\<open>result\<close> as an
  accumulator that starts at the zero time.
\<close>

fun maxEndTimeRuns :: "Time \<Rightarrow> RunInfo list \<Rightarrow> Time" where
  "maxEndTimeRuns result [] = result"
| "maxEndTimeRuns result (r # tr) =
     (if \<not> Success r then maxEndTimeRuns result tr
      else if After (End r) result then maxEndTimeRuns (End r) tr
      else maxEndTimeRuns result tr)"

fun maxEndTimeFrom :: "Time \<Rightarrow> RunInfo list list \<Rightarrow> Time" where
  "maxEndTimeFrom result [] = result"
| "maxEndTimeFrom result (tr # taskRuns) = maxEndTimeFrom (maxEndTimeRuns result tr) taskRuns"

definition maxEndTime :: "RunInfo list list \<Rightarrow> Time" where
  "maxEndTime taskRuns = maxEndTimeFrom 0 taskRuns"

text \<open>\<^verbatim>\<open>shouldQuickRewriteContents\<close> (lines 448-458).\<close>

definition shouldQuickRewriteContents :: "Schedule \<Rightarrow> SafetyParameters \<Rightarrow> bool" where
  "shouldQuickRewriteContents s safety =
     (let latestContentRewriteEndTime =
            maxEndTime [runsOf s TaskRewriteContentsFull, runsOf s TaskRewriteContentsQuick];
          latestBlobDeleteTime =
            maxEndTime [runsOf s TaskDeleteOrphanedBlobsFull, runsOf s TaskDeleteOrphanedBlobsQuick]
      in if IsZero latestContentRewriteEndTime \<or> MinRewriteToOrphanDeletionDelay safety = 0
         then True
         else \<not> Before latestBlobDeleteTime latestContentRewriteEndTime)"

text \<open>\<^verbatim>\<open>shouldFullRewriteContents\<close> (lines 463-475).\<close>

definition shouldFullRewriteContents :: "Schedule \<Rightarrow> SafetyParameters \<Rightarrow> bool" where
  "shouldFullRewriteContents s safety =
     (let latestContentRewriteEndTime = maxEndTime [runsOf s TaskRewriteContentsFull];
          latestBlobDeleteTime =
            maxEndTime [runsOf s TaskDeleteOrphanedBlobsFull, runsOf s TaskDeleteOrphanedBlobsQuick]
      in if IsZero latestContentRewriteEndTime \<or> MinRewriteToOrphanDeletionDelay safety = 0
         then True
         else \<not> Before latestBlobDeleteTime latestContentRewriteEndTime)"

text \<open>\<^verbatim>\<open>nextBlobDeleteTime\<close> (lines 486-493) and \<^verbatim>\<open>shouldDeleteOrphanedPacks\<close> (lines 482-484).\<close>

definition nextBlobDeleteTime :: "Schedule \<Rightarrow> SafetyParameters \<Rightarrow> Time" where
  "nextBlobDeleteTime s safety =
     (let latestContentRewriteEndTime =
            maxEndTime [runsOf s TaskRewriteContentsFull, runsOf s TaskRewriteContentsQuick]
      in if IsZero latestContentRewriteEndTime then 0
         else Add latestContentRewriteEndTime (MinRewriteToOrphanDeletionDelay safety))"

definition shouldDeleteOrphanedPacks :: "Time \<Rightarrow> Schedule \<Rightarrow> SafetyParameters \<Rightarrow> bool" where
  "shouldDeleteOrphanedPacks now s safety \<longleftrightarrow> \<not> Before now (nextBlobDeleteTime s safety)"

text \<open>\<^verbatim>\<open>hadRecentFullRewrite\<close> (lines 495-497).\<close>

definition hadRecentFullRewrite :: "Schedule \<Rightarrow> bool" where
  "hadRecentFullRewrite s \<longleftrightarrow>
     \<not> Before (maxEndTime [runsOf s TaskRewriteContentsFull])
              (maxEndTime [runsOf s TaskRewriteContentsQuick])"

subsection \<open>Safe drop time\<close>

text \<open>
  \<^verbatim>\<open>sort.Slice\<close> belongs to the standard library and is not a stable sort: it promises a
  permutation of the slice in which no element is \<^verbatim>\<open>less\<close> than one that stands before it.
  \<^verbatim>\<open>findSafeDropTime\<close> takes the sort as a parameter; \<open>sort_Slice_contract\<close> is the promise,
  for the \<^verbatim>\<open>less\<close> function of line 556. \<open>insertByStart\<close> and \<open>sortByStartDescending\<close> are
  an insertion sort, one function that keeps the promise.
\<close>

definition lessByStart :: "RunInfo \<Rightarrow> RunInfo \<Rightarrow> bool" where
  "lessByStart a b \<longleftrightarrow> After (Start a) (Start b)"

definition sort_Slice_contract :: "(RunInfo list \<Rightarrow> RunInfo list) \<Rightarrow> bool" where
  "sort_Slice_contract sort_Slice \<longleftrightarrow>
     (\<forall>xs. mset (sort_Slice xs) = mset xs \<and>
           sorted_wrt (\<lambda>a b. \<not> lessByStart b a) (sort_Slice xs))"

fun insertByStart :: "RunInfo \<Rightarrow> RunInfo list \<Rightarrow> RunInfo list" where
  "insertByStart x [] = [x]"
| "insertByStart x (y # ys) =
     (if lessByStart y x then y # insertByStart x ys else x # y # ys)"

fun sortByStartDescending :: "RunInfo list \<Rightarrow> RunInfo list" where
  "sortByStartDescending [] = []"
| "sortByStartDescending (x # xs) = insertByStart x (sortByStartDescending xs)"

text \<open>
  The loop of lines 560-565 over \<^verbatim>\<open>successfulRuns[1:]\<close>, with \<open>r0\<close> for
  \<^verbatim>\<open>successfulRuns[0]\<close>.
\<close>

fun scanOlderRuns :: "RunInfo \<Rightarrow> RunInfo list \<Rightarrow> SafetyParameters \<Rightarrow> Time" where
  "scanOlderRuns r0 [] safety = 0"
| "scanOlderRuns r0 (r # rs) safety =
     (let diff = - Sub (End r) (Start r0) in
      if sint (MarginBetweenSnapshotGC safety) < sint diff
      then Add (Start r) (- DropContentFromIndexExtraMargin safety)
      else scanOlderRuns r0 rs safety)"

text \<open>
  \<^verbatim>\<open>findSafeDropTime\<close> (lines 541-568). The sorted slice has the length of the filtered
  one, which is at least two where it is indexed; the empty case below is not reached with
  a sort that keeps the contract.
\<close>

definition findSafeDropTime ::
  "(RunInfo list \<Rightarrow> RunInfo list) \<Rightarrow> RunInfo list \<Rightarrow> SafetyParameters \<Rightarrow> Time" where
  "findSafeDropTime sort_Slice runs safety =
     (let successfulRuns = filter Success runs in
      if length successfulRuns \<le> 1 then 0
      else
        case sort_Slice successfulRuns of
          [] \<Rightarrow> 0
        | r0 # older \<Rightarrow> scanOlderRuns r0 older safety)"

subsection \<open>Run reporting and the tasks\<close>

text \<open>
  Modelled from the spec: \<^verbatim>\<open>ReportRun\<close> is missing from the sources. Section 4.5: the
  wrapper records the start time, invokes the task, records the end
  time and success or failure, appends a RunInfo to the per-task history of the schedule it
  was given, persists the schedule, and propagates the error of the task. The schedule is
  passed by pointer in the source, so the caller goes on with the extended history: the
  wrapper returns it.
\<close>

definition ReportRun ::
  "Repository \<Rightarrow> TaskType \<Rightarrow> Schedule \<Rightarrow> (Repository \<Rightarrow> error option \<times> Repository)
     \<Rightarrow> error option \<times> Schedule \<times> Repository" where
  "ReportRun rep taskType s run =
     (let start = repTime rep;
          (runErr, rep1) = run rep;
          ri = \<lparr>Start = start, End = repTime rep1, Success = (runErr = None)\<rparr>;
          s1 = s\<lparr>Runs := (Runs s)(taskType \<mapsto> runsOf s taskType @ [ri])\<rparr>;
          (setErr, rep2) = SetSchedule rep1 s1
      in (runErr, s1, rep2))"

text \<open>
  The bodies of the tasks (\<^verbatim>\<open>RewriteContents\<close>, \<^verbatim>\<open>DeleteUnreferencedBlobs\<close>,
  \<^verbatim>\<open>DropDeletedContents\<close>, \<^verbatim>\<open>CleanupLogs\<close>, \<^verbatim>\<open>CleanupSupersededIndexes\<close>, index
  compaction) are collaborators: running one is recorded as an event, takes
  \<open>taskDuration\<close> on the repository clock and returns \<open>taskOutcome\<close>.
\<close>

definition runTaskBody :: "TaskType \<Rightarrow> Repository \<Rightarrow> error option \<times> Repository" where
  "runTaskBody t rep =
     (taskOutcome rep t,
      rep\<lparr>repTime := repTime rep + int (taskDuration rep t), events := events rep @ [Ran t]\<rparr>)"

text \<open>\<^verbatim>\<open>notRewritingContents\<close> (lines 308-310), \<^verbatim>\<open>notDeletingOrphanedBlobs\<close> (lines 312-316).\<close>

definition notRewritingContents :: "Repository \<Rightarrow> Repository" where
  "notRewritingContents rep = logEvent InfoNotRewritingContents rep"

definition notDeletingOrphanedBlobs :: "Repository \<Rightarrow> Repository" where
  "notDeletingOrphanedBlobs rep = logEvent InfoSkippingBlobDeletion rep"

text \<open>\<^verbatim>\<open>runTaskCleanupLogs\<close> (lines 318-326).\<close>

definition runTaskCleanupLogs ::
  "Repository \<Rightarrow> RunParameters \<Rightarrow> Schedule \<Rightarrow> error option \<times> Schedule \<times> Repository" where
  "runTaskCleanupLogs rep runParams s = ReportRun rep TaskCleanupLogs s (runTaskBody TaskCleanupLogs)"

text \<open>\<^verbatim>\<open>runTaskCleanupEpochManager\<close> (lines 328-342).\<close>

definition runTaskCleanupEpochManager ::
  "Repository \<Rightarrow> RunParameters \<Rightarrow> Schedule \<Rightarrow> error option \<times> Schedule \<times> Repository" where
  "runTaskCleanupEpochManager rep runParams s =
     (case epochManagerErr rep of
        Some emerr \<Rightarrow> (Some (Wrap emerr ''epoch manager''), s, rep)
      | None \<Rightarrow>
          if \<not> epochManagerOk rep then (None, s, rep)
          else
            ReportRun rep TaskCleanupEpochManager s
              (\<lambda>rep. case runTaskBody TaskCleanupEpochManager rep of
                        (None, rep1) \<Rightarrow> (None, rep1)
                      | (Some err, rep1) \<Rightarrow>
                          (Some (Wrap err ''error cleaning up superseded index blobs''), rep1)))"

text \<open>\<^verbatim>\<open>runTaskDropDeletedContentsFull\<close> (lines 344-363).\<close>

definition runTaskDropDeletedContentsFull ::
  "(RunInfo list \<Rightarrow> RunInfo list) \<Rightarrow> Repository \<Rightarrow> RunParameters \<Rightarrow> Schedule \<Rightarrow> SafetyParameters
     \<Rightarrow> error option \<times> Schedule \<times> Repository" where
  "runTaskDropDeletedContentsFull sort_Slice rep runParams s safety =
     (let safeDropTime =
            (if RequireTwoGCCycles safety
             then findSafeDropTime sort_Slice (runsOf s TaskSnapshotGarbageCollection) safety
             else repTime rep)
      in if IsZero safeDropTime then (None, s, logEvent InfoNotEnoughTimeSinceGC rep)
         else
           ReportRun (logEvent (InfoFoundSafeDropTime safeDropTime) rep)
             TaskDropDeletedContentsFull s (runTaskBody TaskDropDeletedContentsFull))"

text \<open>
  \<^verbatim>\<open>runTaskRewriteContentsQuick\<close>, \<^verbatim>\<open>runTaskRewriteContentsFull\<close>,
  \<^verbatim>\<open>runTaskDeleteOrphanedBlobsFull\<close>, \<^verbatim>\<open>runTaskDeleteOrphanedBlobsQuick\<close> (lines 365-401).
\<close>

definition runTaskRewriteContentsQuick ::
  "Repository \<Rightarrow> RunParameters \<Rightarrow> Schedule \<Rightarrow> SafetyParameters
     \<Rightarrow> error option \<times> Schedule \<times> Repository" where
  "runTaskRewriteContentsQuick rep runParams s safety =
     ReportRun rep TaskRewriteContentsQuick s (runTaskBody TaskRewriteContentsQuick)"

definition runTaskRewriteContentsFull ::
  "Repository \<Rightarrow> RunParameters \<Rightarrow> Schedule \<Rightarrow> SafetyParameters
     \<Rightarrow> error option \<times> Schedule \<times> Repository" where
  "runTaskRewriteContentsFull rep runParams s safety =
     ReportRun rep TaskRewriteContentsFull s (runTaskBody TaskRewriteContentsFull)"

definition runTaskDeleteOrphanedBlobsFull ::
  "Repository \<Rightarrow> RunParameters \<Rightarrow> Schedule \<Rightarrow> SafetyParameters
     \<Rightarrow> error option \<times> Schedule \<times> Repository" where
  "runTaskDeleteOrphanedBlobsFull rep runParams s safety =
     ReportRun rep TaskDeleteOrphanedBlobsFull s (runTaskBody TaskDeleteOrphanedBlobsFull)"

definition runTaskDeleteOrphanedBlobsQuick ::
  "Repository \<Rightarrow> RunParameters \<Rightarrow> Schedule \<Rightarrow> SafetyParameters
     \<Rightarrow> error option \<times> Schedule \<times> Repository" where
  "runTaskDeleteOrphanedBlobsQuick rep runParams s safety =
     ReportRun rep TaskDeleteOrphanedBlobsQuick s (runTaskBody TaskDeleteOrphanedBlobsQuick)"

text \<open>
  Modelled from the spec: \<^verbatim>\<open>runTaskIndexCompactionQuick\<close> is missing from the sources.
  Section 4.4, quick cycle, step c, and section 4.5: quick index
  compaction is a task body run through the reporting wrapper.
\<close>

definition runTaskIndexCompactionQuick ::
  "Repository \<Rightarrow> RunParameters \<Rightarrow> Schedule \<Rightarrow> SafetyParameters
     \<Rightarrow> error option \<times> Schedule \<times> Repository" where
  "runTaskIndexCompactionQuick rep runParams s safety =
     ReportRun rep TaskIndexCompaction s (runTaskBody TaskIndexCompaction)"

subsection \<open>The quick cycle\<close>

text \<open>
  \<^verbatim>\<open>runQuickMaintenance\<close> (lines 248-306), in the order of the source: the rewrite step
  (lines 264-272), the deletion step (lines 274-294), then index compaction and log cleanup
  (lines 296-305), each of which ends the cycle when it fails.
\<close>

definition quickRewriteStep ::
  "Repository \<Rightarrow> RunParameters \<Rightarrow> Schedule \<Rightarrow> SafetyParameters
     \<Rightarrow> error option \<times> Schedule \<times> Repository" where
  "quickRewriteStep rep runParams s safety =
     (if shouldQuickRewriteContents s safety then
        case runTaskRewriteContentsQuick rep runParams s safety of
          (Some err, s1, rep1) \<Rightarrow> (Some (Wrap err ''error rewriting metadata contents''), s1, rep1)
        | (None, s1, rep1) \<Rightarrow> (None, s1, rep1)
      else (None, s, notRewritingContents rep))"

definition quickDeleteStep ::
  "Repository \<Rightarrow> RunParameters \<Rightarrow> Schedule \<Rightarrow> SafetyParameters
     \<Rightarrow> error option \<times> Schedule \<times> Repository" where
  "quickDeleteStep rep runParams s safety =
     (if shouldDeleteOrphanedPacks (repTime rep) s safety then
        case (if hadRecentFullRewrite s
              then runTaskDeleteOrphanedBlobsFull rep runParams s safety
              else runTaskDeleteOrphanedBlobsQuick rep runParams s safety) of
          (Some err, s1, rep1) \<Rightarrow>
            (Some (Wrap err ''error deleting unreferenced metadata blobs''), s1, rep1)
        | (None, s1, rep1) \<Rightarrow> (None, s1, rep1)
      else (None, s, notDeletingOrphanedBlobs rep))"

definition quickFinalSteps ::
  "Repository \<Rightarrow> RunParameters \<Rightarrow> Schedule \<Rightarrow> SafetyParameters \<Rightarrow> error option \<times> Repository" where
  "quickFinalSteps rep runParams s safety =
     (case runTaskIndexCompactionQuick rep runParams s safety of
        (Some err, s1, rep1) \<Rightarrow> (Some (Wrap err ''error performing index compaction''), rep1)
      | (None, s1, rep1) \<Rightarrow>
          (case runTaskCleanupLogs rep1 runParams s1 of
             (Some err, s2, rep2) \<Rightarrow> (Some (Wrap err ''error cleaning up logs''), rep2)
           | (None, s2, rep2) \<Rightarrow> (None, rep2)))"

definition runQuickMaintenance ::
  "Repository \<Rightarrow> RunParameters \<Rightarrow> SafetyParameters \<Rightarrow> error option \<times> Repository" where
  "runQuickMaintenance rep runParams safety =
     (if epochManagerOk rep then (None, rep)
      else
        (case epochManagerErr rep of
           Some emerr \<Rightarrow> (Some (Wrap emerr ''epoch manager''), rep)
         | None \<Rightarrow>
             (case GetSchedule rep of
                Inl err \<Rightarrow> (Some (Wrap err ''unable to get schedule''), rep)
              | Inr s \<Rightarrow>
                  (case quickRewriteStep rep runParams s safety of
                     (Some err, s1, rep1) \<Rightarrow> (Some err, rep1)
                   | (None, s1, rep1) \<Rightarrow>
                       (case quickDeleteStep rep1 runParams s1 safety of
                          (Some err, s2, rep2) \<Rightarrow> (Some err, rep2)
                        | (None, s2, rep2) \<Rightarrow> quickFinalSteps rep2 runParams s2 safety)))))"

subsection \<open>The full cycle\<close>

text \<open>
  \<^verbatim>\<open>runFullMaintenance\<close> (lines 403-443), in the order of the source: the rewrite step (lines
  409-417), dropping deleted contents (lines 421-423), the deletion step (lines 425-432),
  then log cleanup and the cleanup of the epoch manager (lines 434-442).
\<close>

definition fullRewriteStep ::
  "Repository \<Rightarrow> RunParameters \<Rightarrow> Schedule \<Rightarrow> SafetyParameters
     \<Rightarrow> error option \<times> Schedule \<times> Repository" where
  "fullRewriteStep rep runParams s safety =
     (if shouldFullRewriteContents s safety then
        case runTaskRewriteContentsFull rep runParams s safety of
          (Some err, s1, rep1) \<Rightarrow>
            (Some (Wrap err ''error rewriting contents in short packs''), s1, rep1)
        | (None, s1, rep1) \<Rightarrow> (None, s1, rep1)
      else (None, s, notRewritingContents rep))"

definition fullDropStep ::
  "(RunInfo list \<Rightarrow> RunInfo list) \<Rightarrow> Repository \<Rightarrow> RunParameters \<Rightarrow> Schedule \<Rightarrow> SafetyParameters
     \<Rightarrow> error option \<times> Schedule \<times> Repository" where
  "fullDropStep sort_Slice rep runParams s safety =
     (case runTaskDropDeletedContentsFull sort_Slice rep runParams s safety of
        (Some err, s1, rep1) \<Rightarrow> (Some (Wrap err ''error dropping deleted contents''), s1, rep1)
      | (None, s1, rep1) \<Rightarrow> (None, s1, rep1))"

definition fullDeleteStep ::
  "Repository \<Rightarrow> RunParameters \<Rightarrow> Schedule \<Rightarrow> SafetyParameters
     \<Rightarrow> error option \<times> Schedule \<times> Repository" where
  "fullDeleteStep rep runParams s safety =
     (if shouldDeleteOrphanedPacks (repTime rep) s safety then
        case runTaskDeleteOrphanedBlobsFull rep runParams s safety of
          (Some err, s1, rep1) \<Rightarrow> (Some (Wrap err ''error deleting unreferenced blobs''), s1, rep1)
        | (None, s1, rep1) \<Rightarrow> (None, s1, rep1)
      else (None, s, notDeletingOrphanedBlobs rep))"

definition fullFinalSteps ::
  "Repository \<Rightarrow> RunParameters \<Rightarrow> Schedule \<Rightarrow> error option \<times> Repository" where
  "fullFinalSteps rep runParams s =
     (case runTaskCleanupLogs rep runParams s of
        (Some err, s1, rep1) \<Rightarrow> (Some (Wrap err ''error cleaning up logs''), rep1)
      | (None, s1, rep1) \<Rightarrow>
          (case runTaskCleanupEpochManager rep1 runParams s1 of
             (Some err, s2, rep2) \<Rightarrow> (Some (Wrap err ''error cleaning up epoch manager''), rep2)
           | (None, s2, rep2) \<Rightarrow> (None, rep2)))"

definition runFullMaintenance ::
  "(RunInfo list \<Rightarrow> RunInfo list) \<Rightarrow> Repository \<Rightarrow> RunParameters \<Rightarrow> SafetyParameters
     \<Rightarrow> error option \<times> Repository" where
  "runFullMaintenance sort_Slice rep runParams safety =
     (case GetSchedule rep of
        Inl err \<Rightarrow> (Some (Wrap err ''unable to get schedule''), rep)
      | Inr s \<Rightarrow>
          (case fullRewriteStep rep runParams s safety of
             (Some err, s1, rep1) \<Rightarrow> (Some err, rep1)
           | (None, s1, rep1) \<Rightarrow>
               (case fullDropStep sort_Slice rep1 runParams s1 safety of
                  (Some err, s2, rep2) \<Rightarrow> (Some err, rep2)
                | (None, s2, rep2) \<Rightarrow>
                    (case fullDeleteStep rep2 runParams s2 safety of
                       (Some err, s3, rep3) \<Rightarrow> (Some err, rep3)
                     | (None, s3, rep3) \<Rightarrow> fullFinalSteps rep3 runParams s3))))"

text \<open>\<^verbatim>\<open>Run\<close> (lines 235-246).\<close>

definition Run ::
  "(RunInfo list \<Rightarrow> RunInfo list) \<Rightarrow> Repository \<Rightarrow> RunParameters \<Rightarrow> SafetyParameters
     \<Rightarrow> error option \<times> Repository" where
  "Run sort_Slice rep runParams safety =
     (if Mode runParams = ModeQuick then runQuickMaintenance rep runParams safety
      else if Mode runParams = ModeFull then runFullMaintenance sort_Slice rep runParams safety
      else (Some (Errorf ''unknown mode''), rep))"

subsection \<open>The exclusivity guard\<close>

text \<open>
  \<^verbatim>\<open>RunExclusive\<close> (lines 145-216). \<open>lockedSection\<close> is the part that runs with the lock
  held (lines 189-215); the deferred \<^verbatim>\<open>Unlock\<close> follows it on every path.
\<close>

definition lockedSection ::
  "Repository \<Rightarrow> Mode \<Rightarrow> Params \<Rightarrow> (RunParameters \<Rightarrow> Repository \<Rightarrow> error option \<times> Repository)
     \<Rightarrow> error option \<times> Repository" where
  "lockedSection rep mode p cb =
     (let runParams = \<lparr>Mode = mode, Params = p, MaintenanceStartTime = 0\<rparr> in
      case updateSchedule rep runParams of
        (Some err, rep1) \<Rightarrow> (Some (Wrap err ''error updating maintenance schedule''), rep1)
      | (None, rep1) \<Rightarrow>
          (case scheduleBlobTimestamp rep1 of
             Inl err \<Rightarrow> (Some (Wrap err ''error getting maintenance blob time''), rep1)
           | Inr timestamp \<Rightarrow>
               (let runParams = runParams\<lparr>MaintenanceStartTime := timestamp\<rparr> in
                case checkClockSkewBounds rep1 runParams of
                  Some err \<Rightarrow> (Some (Wrap err ''error checking for clock skew''), rep1)
                | None \<Rightarrow>
                    (case refreshError rep1 of
                       Some err \<Rightarrow>
                         (Some (Wrap err ''error refreshing indexes before maintenance''), rep1)
                     | None \<Rightarrow> cb runParams (logEvent IndexesRefreshed rep1)))))"

definition RunExclusive ::
  "Repository \<Rightarrow> Mode \<Rightarrow> bool \<Rightarrow> (RunParameters \<Rightarrow> Repository \<Rightarrow> error option \<times> Repository)
     \<Rightarrow> error option \<times> Repository" where
  "RunExclusive rep0 mode0 force cb =
     (let rep = rep0\<lparr>indexRefreshDisabled := True\<rparr> in
      case GetParams rep of
        Inl err \<Rightarrow> (Some (Wrap err ''unable to get maintenance params''), rep)
      | Inr p \<Rightarrow>
          if \<not> force \<and> \<not> isOwnedByByThisUser p rep then (Some (NotOwnedError (Owner p)), rep)
          else
            (case (if mode0 = ModeAuto then shouldRun rep p else (mode0, None)) of
               (mode, Some err) \<Rightarrow>
                 (Some (Wrap err ''unable to determine if maintenance is required''), rep)
             | (mode, None) \<Rightarrow>
                 if mode = ModeNone then (None, rep)
                 else
                   (case tryLockResult rep of
                      Inl err \<Rightarrow> (Some (Wrap err ''error acquiring maintenance lock''), rep)
                    | Inr ok \<Rightarrow>
                        if \<not> ok then (None, rep)
                        else
                          (case lockedSection (logEvent LockAcquired rep) mode p cb of
                             (result, rep1) \<Rightarrow> (result, logEvent LockReleased rep1)))))"

subsection \<open>Notions of the specification\<close>

text \<open>
  The latest end among the successful runs of a history, the zero time when none succeeded:
  the query \<^verbatim>\<open>latestSuccessfulEnd\<close> of the specification's design notes. The zero time stands
  for ``never'', as everywhere in the specification.
\<close>

definition latestSuccessfulEnd :: "RunInfo list \<Rightarrow> Time" where
  "latestSuccessfulEnd rs = Max (insert 0 (End ` set (filter Success rs)))"

text \<open>
  The step that drops deleted contents has been attempted when it has evaluated the safe drop
  time: its first act is to report that no safe time exists yet or which time it found.
  \<open>newEvents rep rep1\<close> are the events of \<open>rep1\<close> that came after those of \<open>rep\<close>.
\<close>

fun isDropAttempt :: "event \<Rightarrow> bool" where
  "isDropAttempt InfoNotEnoughTimeSinceGC = True"
| "isDropAttempt (InfoFoundSafeDropTime t) = True"
| "isDropAttempt e = False"

definition newEvents :: "Repository \<Rightarrow> Repository \<Rightarrow> event list" where
  "newEvents rep rep1 = drop (length (events rep)) (events rep1)"

subsection \<open>Example states\<close>

text \<open>
  A repository owned by \<open>alice@host\<close>, seen by its owner at midnight UTC of January 1, 2024
  (in nanoseconds since the zero time), with the full cycle due and the quick cycle not yet.
\<close>

definition exampleParams :: Params where
  "exampleParams =
     \<lparr>Owner = ''alice@host'',
      QuickCycle = \<lparr>Enabled = True, Interval = 60 * Minute\<rparr>,
      FullCycle = \<lparr>Enabled = True, Interval = 1440 * Minute\<rparr>\<rparr>"

definition exampleSafety :: SafetyParameters where
  "exampleSafety =
     \<lparr>RequireTwoGCCycles = True,
      MinRewriteToOrphanDeletionDelay = 60 * Minute,
      MarginBetweenSnapshotGC = 240 * Minute,
      DropContentFromIndexExtraMargin = 60 * Minute\<rparr>"

definition exampleNow :: Time where
  "exampleNow = 63839664000000000000"

definition exampleSchedule :: Schedule where
  "exampleSchedule =
     \<lparr>NextFullMaintenanceTime = exampleNow - 1000,
      NextQuickMaintenanceTime = exampleNow + 1000,
      Runs = Map.empty\<rparr>"

definition exampleRepository :: Repository where
  "exampleRepository =
     \<lparr>UsernameAtHost = ''alice@host'',
      repTime = exampleNow,
      indexRefreshDisabled = False,
      paramsBlob = Inr exampleParams,
      scheduleBlob = Inr exampleSchedule,
      setScheduleError = None,
      scheduleBlobTimestamp = Inr exampleNow,
      epochManagerOk = False,
      epochManagerErr = None,
      tryLockResult = Inr True,
      refreshError = None,
      taskOutcome = (\<lambda>t. None),
      taskDuration = (\<lambda>t. 1000000000),
      events = []\<rparr>"

text \<open>A history of three garbage collections: the middle one failed.\<close>

definition exampleGCRuns :: "RunInfo list" where
  "exampleGCRuns =
     [\<lparr>Start = exampleNow - 36000000000000, End = exampleNow - 35000000000000, Success = True\<rparr>,
      \<lparr>Start = exampleNow - 20000000000000, End = exampleNow - 19000000000000, Success = False\<rparr>,
      \<lparr>Start = exampleNow - 3600000000000, End = exampleNow - 3000000000000, Success = True\<rparr>]"

text \<open>
  A history of two successful garbage collections, the older one recorded with the zero
  value of \<^verbatim>\<open>time.Time\<close> for its start and end, the latest one an hour before \<open>exampleNow\<close>.
\<close>

definition exampleFarApartGCRuns :: "RunInfo list" where
  "exampleFarApartGCRuns =
     [\<lparr>Start = 0, End = 0, Success = True\<rparr>,
      \<lparr>Start = exampleNow - 3600000000000, End = exampleNow - 3000000000000, Success = True\<rparr>]"

text \<open>
  A schedule after a full rewrite that no deletion has followed yet: the rewrite ended two
  hours before \<open>exampleNow\<close>.
\<close>

definition exampleScheduleRewritten :: Schedule where
  "exampleScheduleRewritten =
     exampleSchedule\<lparr>Runs := [TaskRewriteContentsFull \<mapsto>
        [\<lparr>Start = exampleNow - 7300000000000, End = exampleNow - 7200000000000,
          Success = True\<rparr>]]\<rparr>"

text \<open>The callback that callers hand to \<^verbatim>\<open>RunExclusive\<close>: it runs the cycle.\<close>

definition exampleCallback :: "RunParameters \<Rightarrow> Repository \<Rightarrow> error option \<times> Repository" where
  "exampleCallback runParams rep = Run sortByStartDescending rep runParams exampleSafety"

section \<open>Properties\<close>

subsection \<open>Constants and durations\<close>

lemmas mode_defs = ModeNone_def ModeQuick_def ModeFull_def ModeAuto_def

lemmas task_defs = TaskSnapshotGarbageCollection_def TaskDeleteOrphanedBlobsQuick_def
  TaskDeleteOrphanedBlobsFull_def TaskRewriteContentsQuick_def TaskRewriteContentsFull_def
  TaskDropDeletedContentsFull_def TaskIndexCompaction_def TaskCleanupLogs_def
  TaskCleanupEpochManager_def

lemmas example_defs = exampleParams_def exampleSafety_def exampleNow_def exampleSchedule_def
  exampleRepository_def exampleGCRuns_def exampleScheduleRewritten_def
  exampleFarApartGCRuns_def

lemma ModeQuick_neq_ModeFull: "ModeQuick \<noteq> ModeFull"
  by (simp add: mode_defs)

lemma sint_minDuration: "sint minDuration = - (2 ^ 63)"
  by (simp add: minDuration_def)

lemma sint_maxDuration: "sint maxDuration = 2 ^ 63 - 1"
  by (simp add: maxDuration_def)

lemma sint_word_of_int_64:
  assumes "- (2 ^ 63) \<le> k" and "k < 2 ^ 63"
  shows "sint (word_of_int k :: 64 word) = k"
  using assms by (simp add: sint_sbintrunc' signed_take_bit_int_eq_self)

lemma sint_Sub_exact:
  assumes "- (2 ^ 63) \<le> t - u" and "t - u < 2 ^ 63"
  shows "sint (Sub t u) = t - u"
proof -
  have "Sub t u = word_of_int (t - u)"
    using assms unfolding Sub_def Let_def by (simp del: of_int_diff)
  then show ?thesis
    using assms by (simp only: sint_word_of_int_64)
qed

lemma Sub_low: "t - u < - (2 ^ 63) \<Longrightarrow> Sub t u = minDuration"
  by (simp add: Sub_def)

lemma Sub_high: "2 ^ 63 \<le> t - u \<Longrightarrow> Sub t u = maxDuration"
  by (simp add: Sub_def Let_def)

lemma neg_minDuration: "- minDuration = minDuration"
  by (simp add: minDuration_def)

lemma sint_range_64: "- (2 ^ 63) \<le> sint (d :: Duration) \<and> sint d < 2 ^ 63"
  using sint_range_size [of d] by (simp add: word_size)

lemma sint_eq_min: "sint (d :: Duration) = - (2 ^ 63) \<Longrightarrow> d = minDuration"
proof -
  assume a: "sint d = - (2 ^ 63)"
  have "d = word_of_int (sint d)" by simp
  also have "\<dots> = minDuration" unfolding a by (simp add: minDuration_def)
  finally show ?thesis .
qed

lemma sint_neg:
  assumes "(d :: Duration) \<noteq> minDuration"
  shows "sint (- d) = - sint d"
proof -
  have "sint d \<noteq> - (2 ^ 63)" using assms sint_eq_min by blast
  with sint_range_64 [of d] have "- (2 ^ 63) \<le> - sint d" "- sint d < 2 ^ 63" by auto
  then show ?thesis
    by (simp add: sint_word_minus signed_take_bit_int_eq_self)
qed

lemma sint_maxClockSkew: "sint maxClockSkew = 300000000000"
  by (simp add: maxClockSkew_def Minute_def)


subsection \<open>The clock-skew check\<close>

text \<open>
  What \<^verbatim>\<open>checkClockSkewBounds\<close> decides, in terms of the two instants: it fails when they
  differ by more than \<open>maxClockSkew\<close>, unless the repository timestamp lies \<open>2 ^ 63\<close>
  nanoseconds (about 292 years) or more before the local clock. There \<^verbatim>\<open>Sub\<close> returns the
  minimum Duration, whose negation is itself, so the skew that is compared is negative.
\<close>

lemma checkClockSkewBounds_fails_iff:
  "checkClockSkewBounds rep rp \<noteq> None \<longleftrightarrow>
     sint maxClockSkew < \<bar>MaintenanceStartTime rp - repTime rep\<bar> \<and>
     - (2 ^ 63) < MaintenanceStartTime rp - repTime rep"
proof -
  let ?d = "MaintenanceStartTime rp - repTime rep"
  let ?skew = "Sub (MaintenanceStartTime rp) (repTime rep)"
  have code: "checkClockSkewBounds rep rp \<noteq> None \<longleftrightarrow>
      sint maxClockSkew < sint (if sint ?skew < 0 then - ?skew else ?skew)"
    by (simp add: checkClockSkewBounds_def Let_def)
  consider (low) "?d \<le> - (2 ^ 63)" | (neg) "- (2 ^ 63) < ?d" "?d < 0"
    | (pos) "0 \<le> ?d" "?d < 2 ^ 63" | (high) "2 ^ 63 \<le> ?d"
    by linarith
  then show ?thesis
  proof cases
    case low
    have "?skew = minDuration"
    proof (cases "?d < - (2 ^ 63)")
      case True
      then show ?thesis by (rule Sub_low)
    next
      case False
      with low have "?d = - (2 ^ 63)" by simp
      then show ?thesis by (simp add: Sub_def minDuration_def)
    qed
    then have "sint (if sint ?skew < 0 then - ?skew else ?skew) = - (2 ^ 63)"
      by (simp add: sint_minDuration neg_minDuration)
    with low show ?thesis unfolding code by (simp add: sint_maxClockSkew)
  next
    case neg
    then have s: "sint ?skew = ?d" by (intro sint_Sub_exact) simp_all
    with neg have "?skew \<noteq> minDuration" by (auto simp: sint_minDuration)
    then have "sint (- ?skew) = - ?d" using s by (simp add: sint_neg)
    with s neg show ?thesis unfolding code by simp
  next
    case pos
    then have s: "sint ?skew = ?d" by (intro sint_Sub_exact) simp_all
    with pos show ?thesis unfolding code by simp
  next
    case high
    then have "?skew = maxDuration" by (rule Sub_high)
    with high show ?thesis unfolding code by (simp add: sint_maxDuration sint_maxClockSkew)
  qed
qed

text \<open>
  C7. The claim: the check fails if and only if the absolute difference between
  \<^verbatim>\<open>MaintenanceStartTime\<close> and the local clock exceeds five minutes, in either direction.
  The code does not fail for a schedule blob whose timestamp is the zero time, read at a
  local clock of 2024: the two instants differ by more than five minutes, and the check
  returns no error.
\<close>

theorem checkClockSkewBounds_passes_zero_timestamp:
  "checkClockSkewBounds exampleRepository
     \<lparr>Mode = ModeFull, Params = exampleParams, MaintenanceStartTime = 0\<rparr> = None \<and>
   sint maxClockSkew < \<bar>0 - repTime exampleRepository\<bar>"
  by (simp add: checkClockSkewBounds_def Sub_def Let_def minDuration_def maxClockSkew_def
      Minute_def example_defs)


subsection \<open>Eligibility\<close>

text \<open>
  C8, as stated, fails: \<^verbatim>\<open>shouldRun\<close> first compares the owner with the local identity and
  answers \<^verbatim>\<open>ModeNone\<close> for anyone else, whatever the schedule says. Here the full cycle is
  enabled and due, and the result is not \<^verbatim>\<open>ModeFull\<close>.
\<close>

theorem shouldRun_other_owner_counterexample:
  "Enabled (FullCycle exampleParams) \<and>
   GetSchedule (exampleRepository\<lparr>UsernameAtHost := ''bob@host''\<rparr>) = Inr exampleSchedule \<and>
   NextFullMaintenanceTime exampleSchedule
     \<le> repTime (exampleRepository\<lparr>UsernameAtHost := ''bob@host''\<rparr>) \<and>
   fst (shouldRun (exampleRepository\<lparr>UsernameAtHost := ''bob@host''\<rparr>) exampleParams) \<noteq> ModeFull"
  by (simp add: example_defs GetSchedule_def shouldRun_def mode_defs)

text \<open>
  C8, amended: when the local identity is the owner and the schedule can be read,
  \<^verbatim>\<open>shouldRun\<close> resolves full before quick: full when the full cycle is enabled and the
  repository clock is at or past \<^verbatim>\<open>NextFullMaintenanceTime\<close>, whatever the quick due time;
  otherwise quick when the quick cycle is enabled and the clock is at or past
  \<^verbatim>\<open>NextQuickMaintenanceTime\<close>; otherwise none. With both cycles disabled the mode is
  none in every case.
\<close>

theorem shouldRun_resolution:
  "(Owner p = UsernameAtHost rep \<and> GetSchedule rep = Inr s \<longrightarrow>
      shouldRun rep p =
        (if Enabled (FullCycle p) \<and> NextFullMaintenanceTime s \<le> repTime rep then ModeFull
         else if Enabled (QuickCycle p) \<and> NextQuickMaintenanceTime s \<le> repTime rep then ModeQuick
         else ModeNone, None)) \<and>
   (\<not> Enabled (FullCycle p) \<and> \<not> Enabled (QuickCycle p) \<longrightarrow> fst (shouldRun rep p) = ModeNone)"
  by (auto simp: shouldRun_def Before_def split: sum.splits)

theorem shouldRun_resolution_witness:
  "shouldRun exampleRepository exampleParams = (ModeFull, None) \<and>
   shouldRun (exampleRepository\<lparr>repTime := exampleNow - 2000\<rparr>) exampleParams = (ModeNone, None) \<and>
   shouldRun (exampleRepository\<lparr>repTime := exampleNow + 2000\<rparr>)
     (exampleParams\<lparr>FullCycle := \<lparr>Enabled = False, Interval = 0\<rparr>\<rparr>) = (ModeQuick, None)"
  using shouldRun_resolution [of exampleParams exampleRepository exampleSchedule]
    shouldRun_resolution [of exampleParams "exampleRepository\<lparr>repTime := exampleNow - 2000\<rparr>" exampleSchedule]
    shouldRun_resolution [of "exampleParams\<lparr>FullCycle := \<lparr>Enabled = False, Interval = 0\<rparr>\<rparr>"
       "exampleRepository\<lparr>repTime := exampleNow + 2000\<rparr>" exampleSchedule]
  by (simp add: example_defs GetSchedule_def)

subsection \<open>Schedule advance\<close>

text \<open>
  C9. When the schedule can be read and written: in mode full, \<^verbatim>\<open>updateSchedule\<close> sets
  both \<^verbatim>\<open>NextFullMaintenanceTime\<close> and \<^verbatim>\<open>NextQuickMaintenanceTime\<close> to the repository
  clock plus the respective interval; in mode quick it sets only
  \<^verbatim>\<open>NextQuickMaintenanceTime\<close> and leaves \<^verbatim>\<open>NextFullMaintenanceTime\<close> as it was. Nothing
  else of the schedule or the repository changes.
\<close>

theorem updateSchedule_advance:
  assumes "GetSchedule rep = Inr s" and "setScheduleError rep = None"
  shows
    "(Mode runParams = ModeFull \<longrightarrow>
        updateSchedule rep runParams =
          (None, rep\<lparr>scheduleBlob := Inr (s
             \<lparr>NextFullMaintenanceTime :=
                repTime rep + sint (Interval (FullCycle (Params runParams))),
              NextQuickMaintenanceTime :=
                repTime rep + sint (Interval (QuickCycle (Params runParams)))\<rparr>)\<rparr>)) \<and>
     (Mode runParams = ModeQuick \<longrightarrow>
        updateSchedule rep runParams =
          (None, rep\<lparr>scheduleBlob := Inr (s
             \<lparr>NextQuickMaintenanceTime :=
                repTime rep + sint (Interval (QuickCycle (Params runParams)))\<rparr>)\<rparr>) \<and>
        NextFullMaintenanceTime (s
             \<lparr>NextQuickMaintenanceTime :=
                repTime rep + sint (Interval (QuickCycle (Params runParams)))\<rparr>)
          = NextFullMaintenanceTime s)"
  using assms
  by (simp add: updateSchedule_def SetSchedule_def Add_def Let_def ModeQuick_neq_ModeFull)


theorem updateSchedule_advance_witness:
  "updateSchedule exampleRepository
     \<lparr>Mode = ModeFull, Params = exampleParams, MaintenanceStartTime = 0\<rparr> =
     (None, exampleRepository\<lparr>scheduleBlob := Inr
        \<lparr>NextFullMaintenanceTime = exampleNow + 86400000000000,
         NextQuickMaintenanceTime = exampleNow + 3600000000000,
         Runs = Map.empty\<rparr>\<rparr>) \<and>
   updateSchedule exampleRepository
     \<lparr>Mode = ModeQuick, Params = exampleParams, MaintenanceStartTime = 0\<rparr> =
     (None, exampleRepository\<lparr>scheduleBlob := Inr
        \<lparr>NextFullMaintenanceTime = exampleNow - 1000,
         NextQuickMaintenanceTime = exampleNow + 3600000000000,
         Runs = Map.empty\<rparr>\<rparr>)"
  using updateSchedule_advance [of exampleRepository exampleSchedule
      "\<lparr>Mode = ModeFull, Params = exampleParams, MaintenanceStartTime = 0\<rparr>"]
    updateSchedule_advance [of exampleRepository exampleSchedule
      "\<lparr>Mode = ModeQuick, Params = exampleParams, MaintenanceStartTime = 0\<rparr>"]
  by (simp add: example_defs GetSchedule_def Minute_def ModeQuick_neq_ModeFull)

subsection \<open>Ownership\<close>

text \<open>
  C4. When \<^verbatim>\<open>RunExclusive\<close> is called with \<^verbatim>\<open>force = false\<close> and the owner in the
  parameters differs from the local identity, it returns \<^verbatim>\<open>NotOwnedError\<close> with that
  owner. The repository state it leaves differs from the one it found in nothing but the
  index-refresh flag that the first statement sets: no lock event is recorded, the persisted
  schedule is the same, and the callback has not run.
\<close>

theorem RunExclusive_not_owned:
  assumes "GetParams rep = Inr p" and "Owner p \<noteq> UsernameAtHost rep"
  shows "RunExclusive rep mode False cb =
           (Some (NotOwnedError (Owner p)), rep\<lparr>indexRefreshDisabled := True\<rparr>)"
  using assms by (simp add: RunExclusive_def GetParams_def isOwnedByByThisUser_def Let_def)

theorem RunExclusive_not_owned_witness:
  "RunExclusive (exampleRepository\<lparr>UsernameAtHost := ''bob@host''\<rparr>) ModeFull False
     exampleCallback =
     (Some (NotOwnedError ''alice@host''),
      exampleRepository\<lparr>UsernameAtHost := ''bob@host'', indexRefreshDisabled := True\<rparr>)"
  using RunExclusive_not_owned [of "exampleRepository\<lparr>UsernameAtHost := ''bob@host''\<rparr>"
      exampleParams ModeFull exampleCallback]
  by (simp add: example_defs GetParams_def)

text \<open>
  C10. For a local identity that is not the owner, \<^verbatim>\<open>shouldRun\<close> answers \<^verbatim>\<open>ModeNone\<close>
  without an error, whatever reading the schedule would give (also when it would fail); so
  \<^verbatim>\<open>RunExclusive\<close> in mode auto with \<^verbatim>\<open>force = true\<close> returns no error and leaves the
  repository as it was but for the index-refresh flag: no lock, no schedule advance, no
  callback.
\<close>

theorem other_owner_auto_is_noop:
  assumes "Owner p \<noteq> UsernameAtHost rep"
  shows "shouldRun rep p = (ModeNone, None) \<and>
         (GetParams rep = Inr p \<longrightarrow>
            RunExclusive rep ModeAuto True cb = (None, rep\<lparr>indexRefreshDisabled := True\<rparr>))"
  using assms
  by (simp add: shouldRun_def RunExclusive_def GetParams_def Let_def)


theorem other_owner_auto_is_noop_witness:
  "shouldRun (exampleRepository\<lparr>UsernameAtHost := ''bob@host''\<rparr>) exampleParams
     = (ModeNone, None) \<and>
   RunExclusive (exampleRepository\<lparr>UsernameAtHost := ''bob@host''\<rparr>) ModeAuto True
     exampleCallback =
     (None, exampleRepository\<lparr>UsernameAtHost := ''bob@host'', indexRefreshDisabled := True\<rparr>)"
  using other_owner_auto_is_noop [of exampleParams
      "exampleRepository\<lparr>UsernameAtHost := ''bob@host''\<rparr>" exampleCallback]
  by (simp add: example_defs GetParams_def)

subsection \<open>The quick cycle with an epoch manager\<close>

text \<open>
  C2, as stated, fails: with an active epoch manager the quick cycle does not run the log
  cleanup task either.
\<close>

theorem quick_cycle_epoch_manager_no_log_cleanup_counterexample:
  "epochManagerOk (exampleRepository\<lparr>epochManagerOk := True\<rparr>) \<and>
   Ran TaskCleanupLogs \<notin> set (events (snd
     (runQuickMaintenance (exampleRepository\<lparr>epochManagerOk := True\<rparr>)
        \<lparr>Mode = ModeQuick, Params = exampleParams, MaintenanceStartTime = exampleNow\<rparr>
        exampleSafety)))"
  by (simp add: runQuickMaintenance_def example_defs)

text \<open>
  C2, amended: for every repository whose content manager reports an active epoch manager,
  the quick cycle returns success at once: it runs no task (no rewrite, no deletion of orphaned
  blobs, no index compaction, no log cleanup) and leaves the repository state as it was.
\<close>

theorem quick_cycle_with_epoch_manager:
  assumes "epochManagerOk rep"
  shows "runQuickMaintenance rep runParams safety = (None, rep)"
  using assms by (simp add: runQuickMaintenance_def)

theorem quick_cycle_with_epoch_manager_witness:
  "epochManagerOk (exampleRepository\<lparr>epochManagerOk := True\<rparr>) \<and>
   runQuickMaintenance (exampleRepository\<lparr>epochManagerOk := True\<rparr>)
     \<lparr>Mode = ModeQuick, Params = exampleParams, MaintenanceStartTime = exampleNow\<rparr> exampleSafety
     = (None, exampleRepository\<lparr>epochManagerOk := True\<rparr>)"
  using quick_cycle_with_epoch_manager [of "exampleRepository\<lparr>epochManagerOk := True\<rparr>"
     "\<lparr>Mode = ModeQuick, Params = exampleParams, MaintenanceStartTime = exampleNow\<rparr>" exampleSafety]
  by (simp add: example_defs)


subsection \<open>Safe drop time\<close>

text \<open>The insertion sort keeps the promise of \<^verbatim>\<open>sort.Slice\<close>.\<close>

lemma mset_insertByStart: "mset (insertByStart x ys) = add_mset x (mset ys)"
  by (induction ys) auto

lemma set_insertByStart: "set (insertByStart x ys) = insert x (set ys)"
  by (induction ys) auto

lemma sorted_insertByStart:
  "sorted_wrt (\<lambda>a b. \<not> lessByStart b a) ys \<Longrightarrow>
   sorted_wrt (\<lambda>a b. \<not> lessByStart b a) (insertByStart x ys)"
  by (induction ys) (auto simp: set_insertByStart lessByStart_def After_def)

lemma mset_sortByStartDescending: "mset (sortByStartDescending xs) = mset xs"
  by (induction xs) (simp_all add: mset_insertByStart)

lemma sorted_sortByStartDescending:
  "sorted_wrt (\<lambda>a b. \<not> lessByStart b a) (sortByStartDescending xs)"
  by (induction xs) (simp_all add: sorted_insertByStart)

lemma sortByStartDescending_contract: "sort_Slice_contract sortByStartDescending"
  by (simp add: sort_Slice_contract_def mset_sortByStartDescending sorted_sortByStartDescending)

lemma scanOlderRuns_find:
  "scanOlderRuns r0 older safety =
     (case find (\<lambda>r. sint (MarginBetweenSnapshotGC safety) < sint (- Sub (End r) (Start r0))) older of
        None \<Rightarrow> 0
      | Some ri \<Rightarrow> Start ri + sint (- DropContentFromIndexExtraMargin safety))"
  by (induction older) (simp_all add: Let_def Add_def)

text \<open>
  The spacing the loop compares with the margin, and the time it returns, are computed with
  Durations. They are the exact differences \<open>Start r0 - End r\<close> and \<open>Start r - extra\<close> as
  long as the two instants are less than \<open>2 ^ 63\<close> nanoseconds (about 292 years) apart and
  the extra margin is not the minimum Duration.
\<close>

lemma spacing_exact:
  assumes "\<bar>Start r0 - End r\<bar> < 2 ^ 63"
  shows "sint (- Sub (End r) (Start r0)) = Start r0 - End r"
proof -
  from assms have s: "sint (Sub (End r) (Start r0)) = End r - Start r0"
    by (intro sint_Sub_exact) linarith+
  with assms have "Sub (End r) (Start r0) \<noteq> minDuration"
    by (auto simp: sint_minDuration)
  then show ?thesis using s by (simp add: sint_neg)
qed

lemma Add_neg_exact:
  assumes "d \<noteq> minDuration"
  shows "Add t (- d) = t - sint d"
  using assms by (simp add: Add_def sint_neg)

text \<open>
  What \<^verbatim>\<open>findSafeDropTime\<close> computes, for any sequence of runs and any sort that keeps the
  promise of \<^verbatim>\<open>sort.Slice\<close>: failed runs are ignored; with zero or one successful run the
  result is the zero time; with two or more, the successful runs are sorted by start time,
  latest first, and the result is decided by the first older run whose spacing, the Duration
  \<^verbatim>\<open>-(ri.End - r0.Start)\<close>, is strictly greater than the margin.
\<close>

lemma findSafeDropTime_as_computed:
  assumes "sort_Slice_contract sort_Slice"
  shows
    "findSafeDropTime sort_Slice runs safety =
       findSafeDropTime sort_Slice (filter Success runs) safety \<and>
     (length (filter Success runs) \<le> 1 \<longrightarrow> findSafeDropTime sort_Slice runs safety = 0) \<and>
     (1 < length (filter Success runs) \<longrightarrow>
        (\<exists>r0 older.
            sort_Slice (filter Success runs) = r0 # older \<and>
            mset (r0 # older) = mset (filter Success runs) \<and>
            sorted_wrt (\<lambda>a b. Start b \<le> Start a) (r0 # older) \<and>
            findSafeDropTime sort_Slice runs safety =
              (case find (\<lambda>ri. sint (MarginBetweenSnapshotGC safety)
                                   < sint (- Sub (End ri) (Start r0))) older of
                 None \<Rightarrow> 0
               | Some ri \<Rightarrow> Start ri + sint (- DropContentFromIndexExtraMargin safety))))"
proof (intro conjI impI)
  show "findSafeDropTime sort_Slice runs safety =
        findSafeDropTime sort_Slice (filter Success runs) safety"
    by (simp add: findSafeDropTime_def)
next
  assume "length (filter Success runs) \<le> 1"
  then show "findSafeDropTime sort_Slice runs safety = 0"
    by (simp add: findSafeDropTime_def)
next
  assume many: "1 < length (filter Success runs)"
  let ?succ = "filter Success runs"
  from assms have perm: "mset (sort_Slice ?succ) = mset ?succ"
    and srt: "sorted_wrt (\<lambda>a b. \<not> lessByStart b a) (sort_Slice ?succ)"
    by (simp_all add: sort_Slice_contract_def)
  from perm have "length (sort_Slice ?succ) = length ?succ"
    by (rule mset_eq_length)
  with many obtain r0 older where split: "sort_Slice ?succ = r0 # older"
    by (cases "sort_Slice ?succ") auto
  have ord: "(\<lambda>a b. \<not> lessByStart b a) = (\<lambda>a b. Start b \<le> Start a)"
    by (auto simp: lessByStart_def After_def fun_eq_iff)
  have "findSafeDropTime sort_Slice runs safety = scanOlderRuns r0 older safety"
    using many split by (simp add: findSafeDropTime_def)
  then show "\<exists>r0 older.
            sort_Slice (filter Success runs) = r0 # older \<and>
            mset (r0 # older) = mset (filter Success runs) \<and>
            sorted_wrt (\<lambda>a b. Start b \<le> Start a) (r0 # older) \<and>
            findSafeDropTime sort_Slice runs safety =
              (case find (\<lambda>ri. sint (MarginBetweenSnapshotGC safety)
                                   < sint (- Sub (End ri) (Start r0))) older of
                 None \<Rightarrow> 0
               | Some ri \<Rightarrow> Start ri + sint (- DropContentFromIndexExtraMargin safety))"
    using split perm srt unfolding ord by (auto simp add: scanOlderRuns_find simp del: sorted_wrt.simps)
qed


lemma findSafeDropTime_as_computed_examples:
  "sort_Slice_contract sortByStartDescending \<and>
   length (filter Success exampleGCRuns) = 2 \<and>
   findSafeDropTime sortByStartDescending exampleGCRuns exampleSafety
     = exampleNow - 36000000000000 - 3600000000000 \<and>
   findSafeDropTime sortByStartDescending exampleGCRuns
     (exampleSafety\<lparr>MarginBetweenSnapshotGC := word_of_int 31400000000000\<rparr>) = 0 \<and>
   findSafeDropTime sortByStartDescending (take 2 exampleGCRuns) exampleSafety = 0"
  using findSafeDropTime_as_computed [OF sortByStartDescending_contract, of exampleGCRuns exampleSafety]
    sortByStartDescending_contract
  by (simp add: example_defs findSafeDropTime_def lessByStart_def After_def Sub_def Add_def
      Let_def Minute_def)

text \<open>
  Within the range of a Duration the result is the one the specification describes: for
  successful runs whose starts and ends are less than \<open>2 ^ 63\<close> nanoseconds apart and an extra
  margin other than the minimum Duration, the first older run with
  \<open>Start r0 - End ri\<close> strictly greater than the margin gives \<open>Start ri\<close> minus the extra
  margin, and the zero time results when there is none.
\<close>

lemma findSafeDropTime_in_range:
  assumes "sort_Slice_contract sort_Slice"
    and near: "\<forall>a \<in> set runs. \<forall>b \<in> set runs. Success a \<and> Success b \<longrightarrow> \<bar>Start a - End b\<bar> < 2 ^ 63"
    and extra: "DropContentFromIndexExtraMargin safety \<noteq> minDuration"
    and many: "1 < length (filter Success runs)"
  shows "\<exists>r0 older.
            sort_Slice (filter Success runs) = r0 # older \<and>
            findSafeDropTime sort_Slice runs safety =
              (case find (\<lambda>ri. sint (MarginBetweenSnapshotGC safety) < Start r0 - End ri) older of
                 None \<Rightarrow> 0
               | Some ri \<Rightarrow> Start ri - sint (DropContentFromIndexExtraMargin safety))"
proof -
  from findSafeDropTime_as_computed [OF assms(1), of runs safety] many
  obtain r0 older where split: "sort_Slice (filter Success runs) = r0 # older"
    and perm: "mset (r0 # older) = mset (filter Success runs)"
    and res: "findSafeDropTime sort_Slice runs safety =
              (case find (\<lambda>ri. sint (MarginBetweenSnapshotGC safety)
                                   < sint (- Sub (End ri) (Start r0))) older of
                 None \<Rightarrow> 0
               | Some ri \<Rightarrow> Start ri + sint (- DropContentFromIndexExtraMargin safety))"
    by auto
  from perm have "set (r0 # older) = set (filter Success runs)" by (rule mset_eq_setD)
  then have mem: "\<forall>r \<in> set (r0 # older). r \<in> set runs \<and> Success r" by auto
  have exact: "sint (- Sub (End ri) (Start r0)) = Start r0 - End ri" if "ri \<in> set older" for ri
    using that mem near by (intro spacing_exact) auto
  have "find (\<lambda>ri. sint (MarginBetweenSnapshotGC safety) < sint (- Sub (End ri) (Start r0))) older
      = find (\<lambda>ri. sint (MarginBetweenSnapshotGC safety) < Start r0 - End ri) older"
    by (rule find_cong) (simp_all add: exact)
  with res split extra show ?thesis
    by (auto simp: sint_neg split: option.splits)
qed

text \<open>A sort that keeps the promise puts the later of two runs first.\<close>

lemma sort_two_runs:
  assumes "sort_Slice_contract sort_Slice" and "Start a < Start b"
  shows "sort_Slice [a, b] = [b, a]"
proof -
  from assms(1) have perm: "mset (sort_Slice [a, b]) = mset [a, b]"
    and srt: "sorted_wrt (\<lambda>x y. \<not> lessByStart y x) (sort_Slice [a, b])"
    by (simp_all add: sort_Slice_contract_def)
  from perm have "length (sort_Slice [a, b]) = length [a, b]" by (rule mset_eq_length)
  then obtain x y where xy: "sort_Slice [a, b] = [x, y]"
    by (cases "sort_Slice [a, b]"; cases "tl (sort_Slice [a, b])") auto
  with perm have "{#x, y#} = {#a, b#}" by simp
  then have "(x = a \<and> y = b) \<or> (x = b \<and> y = a)"
    by (auto simp: add_eq_conv_ex)
  moreover from srt xy have "\<not> Start x < Start y"
    by (simp add: lessByStart_def After_def)
  ultimately show ?thesis using assms(2) xy by auto
qed

text \<open>
  C1. The claim: with two or more successful runs, \<^verbatim>\<open>findSafeDropTime\<close> returns, for the
  first older run \<open>Ri\<close> with \<open>R0.Start - Ri.End\<close> strictly greater than
  \<^verbatim>\<open>MarginBetweenSnapshotGC\<close>, the time \<open>Ri.Start\<close> minus
  \<^verbatim>\<open>DropContentFromIndexExtraMargin\<close>. The code does not do so for runs \<open>2 ^ 63\<close>
  nanoseconds or more apart: \<^verbatim>\<open>Sub\<close> returns the minimum Duration, its negation is itself,
  and the spacing that is compared with the margin is negative. Here the older of two
  successful runs carries the zero time; the latest run started more than two thousand years
  after it ended, far more than the margin of four hours, and the older start minus the extra
  margin is not the zero time; yet the result is the zero time, for every sort that keeps the
  promise of \<^verbatim>\<open>sort.Slice\<close>.
\<close>

theorem findSafeDropTime_far_apart_runs:
  assumes "sort_Slice_contract sort_Slice"
  shows "findSafeDropTime sort_Slice exampleFarApartGCRuns exampleSafety = 0 \<and>
         sint (MarginBetweenSnapshotGC exampleSafety)
           < Start (exampleFarApartGCRuns ! 1) - End (exampleFarApartGCRuns ! 0) \<and>
         Start (exampleFarApartGCRuns ! 0) - sint (DropContentFromIndexExtraMargin exampleSafety)
           \<noteq> 0"
proof -
  let ?a = "\<lparr>Start = 0, End = 0, Success = True\<rparr>"
  let ?b = "\<lparr>Start = exampleNow - 3600000000000, End = exampleNow - 3000000000000,
             Success = True\<rparr>"
  have "Start ?a < Start ?b" by (simp add: exampleNow_def)
  from sort_two_runs [OF assms this] have "sort_Slice [?a, ?b] = [?b, ?a]" .
  then have "findSafeDropTime sort_Slice exampleFarApartGCRuns exampleSafety = 0"
    by (simp add: findSafeDropTime_def exampleFarApartGCRuns_def exampleSafety_def exampleNow_def
        Sub_def Let_def minDuration_def Minute_def)
  then show ?thesis
    by (simp add: exampleFarApartGCRuns_def exampleSafety_def exampleNow_def Minute_def)
qed

theorem findSafeDropTime_far_apart_runs_witness:
  "sort_Slice_contract sortByStartDescending \<and>
   findSafeDropTime sortByStartDescending exampleFarApartGCRuns exampleSafety = 0"
  using findSafeDropTime_far_apart_runs [OF sortByStartDescending_contract]
    sortByStartDescending_contract
  by simp

subsection \<open>Rewrite gating\<close>

lemma maxEndTimeRuns_Max:
  "maxEndTimeRuns result tr = Max (insert result (End ` set (filter Success tr)))"
proof (induction tr arbitrary: result)
  case Nil
  show ?case by simp
next
  case (Cons r tr)
  let ?E = "End ` set (filter Success tr)"
  have fin: "finite ?E" by simp
  show ?case
  proof (cases "Success r")
    case False
    then show ?thesis using Cons.IH by simp
  next
    case True
    have "Max (insert result (insert (End r) ?E)) = Max (insert (max result (End r)) ?E)"
      using fin by (cases "?E = {}") (simp_all add: max.assoc)
    then show ?thesis
      using True Cons.IH by (auto simp: After_def max_def insert_commute)
  qed
qed

lemma maxEndTimeFrom_Max:
  "maxEndTimeFrom result taskRuns =
     Max (insert result (End ` set (filter Success (concat taskRuns))))"
proof (induction taskRuns arbitrary: result)
  case Nil
  show ?case by simp
next
  case (Cons tr taskRuns)
  let ?A = "End ` set (filter Success tr)"
  let ?B = "End ` set (filter Success (concat taskRuns))"
  have step: "maxEndTimeFrom result (tr # taskRuns) = Max (insert (Max (insert result ?A)) ?B)"
    by (simp only: maxEndTimeFrom.simps Cons.IH maxEndTimeRuns_Max)
  have parts: "End ` set (filter Success (concat (tr # taskRuns))) = ?A \<union> ?B"
    by (simp only: concat.simps filter_append set_append image_Un)
  have "Max (insert (Max (insert result ?A)) ?B) = Max (insert result (?A \<union> ?B))"
  proof (cases "?B = {}")
    case True
    show ?thesis unfolding True by (simp only: Max_singleton Un_empty_right)
  next
    case False
    have fin: "finite ?B" "finite (insert result ?A)" by simp_all
    have "Max (insert result ?A \<union> ?B) = max (Max (insert result ?A)) (Max ?B)"
      using fin False by (intro Max_Un) simp_all
    moreover have "Max (insert (Max (insert result ?A)) ?B) = max (Max (insert result ?A)) (Max ?B)"
      using fin(1) False by (rule Max_insert)
    ultimately show ?thesis by (simp only: Un_insert_left)
  qed
  with step parts show ?case by (simp only:)
qed

lemma maxEndTime_latest:
  "maxEndTime taskRuns = latestSuccessfulEnd (concat taskRuns)"
  by (simp add: maxEndTime_def maxEndTimeFrom_Max latestSuccessfulEnd_def)

lemma latestSuccessfulEnd_nonneg: "0 \<le> latestSuccessfulEnd rs"
  by (simp add: latestSuccessfulEnd_def)

lemma latestSuccessfulEnd_none:
  "\<not> (\<exists>r \<in> set rs. Success r) \<Longrightarrow> latestSuccessfulEnd rs = 0"
  by (simp add: latestSuccessfulEnd_def filter_empty_conv [THEN iffD2])

text \<open>
  For histories whose successful runs all ended after the zero time, as every run recorded
  from a clock reading did, \<open>latestSuccessfulEnd\<close> is the greatest of these ends.
\<close>

lemma latestSuccessfulEnd_Max:
  assumes "\<exists>r \<in> set rs. Success r" and "\<forall>r \<in> set rs. Success r \<longrightarrow> 0 < End r"
  shows "latestSuccessfulEnd rs = Max (End ` set (filter Success rs))"
proof -
  let ?E = "End ` set (filter Success rs)"
  from assms(1) have ne: "?E \<noteq> {}" by (auto simp: filter_empty_conv)
  have fin: "finite ?E" by simp
  from assms(2) have "\<forall>e \<in> ?E. 0 < e" by auto
  with ne fin have "0 < Max ?E" by (simp add: Max_gr_iff)
  moreover have "Max (insert 0 ?E) = max 0 (Max ?E)"
    using fin ne by (rule Max_insert)
  ultimately show ?thesis by (simp add: latestSuccessfulEnd_def)
qed

text \<open>
  C5. A quick rewrite is permitted exactly when no rewrite, quick or full, ever succeeded, or
  \<^verbatim>\<open>MinRewriteToOrphanDeletionDelay\<close> is zero, or the latest successful deletion of orphaned
  blobs (quick or full) is not before the latest successful rewrite end (quick or full). A
  full rewrite is permitted exactly when the same holds with the history of full rewrites
  only.
\<close>

theorem rewrite_permitted_iff:
  "(shouldQuickRewriteContents s safety \<longleftrightarrow>
      \<not> (\<exists>r \<in> set (runsOf s TaskRewriteContentsFull @ runsOf s TaskRewriteContentsQuick). Success r)
      \<or> MinRewriteToOrphanDeletionDelay safety = 0
      \<or> \<not> latestSuccessfulEnd (runsOf s TaskDeleteOrphanedBlobsFull @ runsOf s TaskDeleteOrphanedBlobsQuick)
            < latestSuccessfulEnd (runsOf s TaskRewriteContentsFull @ runsOf s TaskRewriteContentsQuick))
   \<and>
   (shouldFullRewriteContents s safety \<longleftrightarrow>
      \<not> (\<exists>r \<in> set (runsOf s TaskRewriteContentsFull). Success r)
      \<or> MinRewriteToOrphanDeletionDelay safety = 0
      \<or> \<not> latestSuccessfulEnd (runsOf s TaskDeleteOrphanedBlobsFull @ runsOf s TaskDeleteOrphanedBlobsQuick)
            < latestSuccessfulEnd (runsOf s TaskRewriteContentsFull))"
proof -
  let ?del = "runsOf s TaskDeleteOrphanedBlobsFull @ runsOf s TaskDeleteOrphanedBlobsQuick"
  have del: "0 \<le> latestSuccessfulEnd ?del" by (rule latestSuccessfulEnd_nonneg)
  have gen: "(IsZero (latestSuccessfulEnd rw) \<or> d = (0 :: Duration) \<or>
               \<not> Before (latestSuccessfulEnd ?del) (latestSuccessfulEnd rw)) \<longleftrightarrow>
             (\<not> (\<exists>r \<in> set rw. Success r) \<or> d = 0 \<or>
               \<not> latestSuccessfulEnd ?del < latestSuccessfulEnd rw)" for rw d
    using del latestSuccessfulEnd_none [of rw] by (auto simp: IsZero_def Before_def)
  have quick: "shouldQuickRewriteContents s safety \<longleftrightarrow>
      (IsZero (latestSuccessfulEnd (runsOf s TaskRewriteContentsFull @ runsOf s TaskRewriteContentsQuick))
       \<or> MinRewriteToOrphanDeletionDelay safety = 0
       \<or> \<not> Before (latestSuccessfulEnd ?del)
            (latestSuccessfulEnd (runsOf s TaskRewriteContentsFull @ runsOf s TaskRewriteContentsQuick)))"
    by (simp add: shouldQuickRewriteContents_def maxEndTime_latest Let_def)
  have full: "shouldFullRewriteContents s safety \<longleftrightarrow>
      (IsZero (latestSuccessfulEnd (runsOf s TaskRewriteContentsFull))
       \<or> MinRewriteToOrphanDeletionDelay safety = 0
       \<or> \<not> Before (latestSuccessfulEnd ?del) (latestSuccessfulEnd (runsOf s TaskRewriteContentsFull)))"
    by (simp add: shouldFullRewriteContents_def maxEndTime_latest Let_def)
  show ?thesis
    unfolding quick full by (intro conjI gen)
qed


theorem rewrite_permitted_iff_witness:
  "\<not> shouldQuickRewriteContents exampleScheduleRewritten exampleSafety \<and>
   \<not> shouldFullRewriteContents exampleScheduleRewritten exampleSafety \<and>
   shouldQuickRewriteContents exampleSchedule exampleSafety \<and>
   shouldFullRewriteContents exampleScheduleRewritten
     (exampleSafety\<lparr>MinRewriteToOrphanDeletionDelay := 0\<rparr>)"
  using rewrite_permitted_iff [of exampleScheduleRewritten exampleSafety]
    rewrite_permitted_iff [of exampleSchedule exampleSafety]
    rewrite_permitted_iff [of exampleScheduleRewritten
      "exampleSafety\<lparr>MinRewriteToOrphanDeletionDelay := 0\<rparr>"]
  by (simp add: example_defs task_defs runsOf_def latestSuccessfulEnd_def Minute_def)

subsection \<open>Events of the reported tasks\<close>

lemma SetSchedule_events [simp]: "events (snd (SetSchedule rep s)) = events rep"
  by (simp add: SetSchedule_def split: option.splits)

lemma ReportRun_fst: "fst (ReportRun rep t s run) = fst (run rep)"
  by (simp add: ReportRun_def Let_def split: prod.splits)

lemma ReportRun_events: "events (snd (snd (ReportRun rep t s run))) = events (snd (run rep))"
proof -
  obtain runErr rep1 where r: "run rep = (runErr, rep1)" by (cases "run rep")
  obtain setErr rep2 where w: "SetSchedule rep1 (s\<lparr>Runs := (Runs s)(t \<mapsto> runsOf s t @
      [\<lparr>Start = repTime rep, End = repTime rep1, Success = (runErr = None)\<rparr>])\<rparr>) = (setErr, rep2)"
    by (cases "SetSchedule rep1 (s\<lparr>Runs := (Runs s)(t \<mapsto> runsOf s t @
      [\<lparr>Start = repTime rep, End = repTime rep1, Success = (runErr = None)\<rparr>])\<rparr>)")
  have "events rep2 = events rep1"
    using SetSchedule_events [of rep1] w by (metis snd_conv)
  then show ?thesis
    by (simp add: ReportRun_def Let_def r w)
qed

lemma runTaskBody_fst [simp]: "fst (runTaskBody t rep) = taskOutcome rep t"
  by (simp add: runTaskBody_def)

lemma runTaskBody_events [simp]: "events (snd (runTaskBody t rep)) = events rep @ [Ran t]"
  by (simp add: runTaskBody_def)

text \<open>What a reported task body returns and logs.\<close>

lemma ReportRun_body:
  "ReportRun rep t s (runTaskBody t) = (err, s1, rep1) \<Longrightarrow>
     err = taskOutcome rep t \<and> events rep1 = events rep @ [Ran t]"
  using ReportRun_fst [of rep t s "runTaskBody t"] ReportRun_events [of rep t s "runTaskBody t"]
  by simp

subsection \<open>The full cycle\<close>

lemma fullRewriteStep_result:
  assumes "fullRewriteStep rep runParams s safety = (err, s1, rep1)"
  shows "(err = None \<longleftrightarrow> \<not> shouldFullRewriteContents s safety \<or> taskOutcome rep TaskRewriteContentsFull = None)
       \<and> (\<exists>e. events rep1 = events rep @ [e] \<and> \<not> isDropAttempt e)"
proof (cases "shouldFullRewriteContents s safety")
  case False
  with assms show ?thesis
    by (auto simp: fullRewriteStep_def notRewritingContents_def logEvent_def)
next
  case True
  obtain e0 s0 rep0 where run: "ReportRun rep TaskRewriteContentsFull s (runTaskBody TaskRewriteContentsFull) = (e0, s0, rep0)"
    by (metis prod_cases3)
  from ReportRun_body [OF run] have e0: "e0 = taskOutcome rep TaskRewriteContentsFull"
    and ev: "events rep0 = events rep @ [Ran TaskRewriteContentsFull]" by simp_all
  from assms True run have "rep1 = rep0" "err = None \<longleftrightarrow> e0 = None"
    by (auto simp: fullRewriteStep_def runTaskRewriteContentsFull_def split: option.splits)
  with True e0 ev show ?thesis by simp
qed

lemma fullDropStep_events:
  assumes "fullDropStep sort_Slice rep runParams s safety = (err, s1, rep1)"
  shows "\<exists>e more. events rep1 = events rep @ e # more \<and> isDropAttempt e"
proof -
  let ?t = "if RequireTwoGCCycles safety
             then findSafeDropTime sort_Slice (runsOf s TaskSnapshotGarbageCollection) safety
             else repTime rep"
  show ?thesis
  proof (cases "IsZero ?t")
    case True
    with assms have "rep1 = logEvent InfoNotEnoughTimeSinceGC rep"
      by (auto simp: fullDropStep_def runTaskDropDeletedContentsFull_def Let_def split: if_splits)
    then show ?thesis by (simp add: logEvent_def)
  next
    case False
    let ?rep = "logEvent (InfoFoundSafeDropTime ?t) rep"
    obtain e0 s0 rep0 where run:
      "ReportRun ?rep TaskDropDeletedContentsFull s (runTaskBody TaskDropDeletedContentsFull) = (e0, s0, rep0)"
      by (metis prod_cases3)
    from ReportRun_body [OF run]
    have ev: "events rep0 = events rep @ [InfoFoundSafeDropTime ?t, Ran TaskDropDeletedContentsFull]"
      by (simp add: logEvent_def)
    from assms False run have "rep1 = rep0"
      by (auto simp: fullDropStep_def runTaskDropDeletedContentsFull_def Let_def split: option.splits)
    with ev show ?thesis by simp
  qed
qed

lemma fullDeleteStep_events:
  assumes "fullDeleteStep rep runParams s safety = (err, s1, rep1)"
  shows "\<exists>more. events rep1 = events rep @ more"
proof (cases "shouldDeleteOrphanedPacks (repTime rep) s safety")
  case False
  with assms show ?thesis
    by (auto simp: fullDeleteStep_def notDeletingOrphanedBlobs_def logEvent_def)
next
  case True
  obtain e0 s0 rep0 where run: "ReportRun rep TaskDeleteOrphanedBlobsFull s (runTaskBody TaskDeleteOrphanedBlobsFull) = (e0, s0, rep0)"
    by (metis prod_cases3)
  from assms True run have "rep1 = rep0"
    by (auto simp: fullDeleteStep_def runTaskDeleteOrphanedBlobsFull_def split: option.splits)
  with ReportRun_body [OF run] show ?thesis by simp
qed

lemma runTaskCleanupEpochManager_events:
  assumes "runTaskCleanupEpochManager rep runParams s = (err, s1, rep1)"
  shows "\<exists>more. events rep1 = events rep @ more"
proof (cases "epochManagerErr rep = None \<and> epochManagerOk rep")
  case False
  with assms show ?thesis
    by (auto simp: runTaskCleanupEpochManager_def split: option.splits if_splits)
next
  case True
  let ?run = "\<lambda>rep. case runTaskBody TaskCleanupEpochManager rep of
                        (None, rep1) \<Rightarrow> (None, rep1)
                      | (Some err, rep1) \<Rightarrow>
                          (Some (Wrap err ''error cleaning up superseded index blobs''), rep1)"
  have "events (snd (?run rep)) = events rep @ [Ran TaskCleanupEpochManager]"
    by (simp add: runTaskBody_def split: option.splits)
  moreover from assms True have "ReportRun rep TaskCleanupEpochManager s ?run = (err, s1, rep1)"
    by (simp add: runTaskCleanupEpochManager_def)
  ultimately show ?thesis
    using ReportRun_events [of rep TaskCleanupEpochManager s ?run] by simp
qed

lemma fullFinalSteps_events:
  assumes "fullFinalSteps rep runParams s = (err, rep1)"
  shows "\<exists>more. events rep1 = events rep @ more"
proof -
  obtain e0 s0 rep0 where logs: "runTaskCleanupLogs rep runParams s = (e0, s0, rep0)"
    by (metis prod_cases3)
  then have ev0: "events rep0 = events rep @ [Ran TaskCleanupLogs]"
    using ReportRun_body [of rep TaskCleanupLogs s e0 s0 rep0] by (simp add: runTaskCleanupLogs_def)
  show ?thesis
  proof (cases e0)
    case (Some e)
    with assms logs have "rep1 = rep0" by (simp add: fullFinalSteps_def)
    with ev0 show ?thesis by simp
  next
    case None
    obtain e2 s2 rep2 where em: "runTaskCleanupEpochManager rep0 runParams s0 = (e2, s2, rep2)"
      by (metis prod_cases3)
    from assms logs None em have "rep1 = rep2"
      by (auto simp: fullFinalSteps_def split: option.splits)
    with runTaskCleanupEpochManager_events [OF em] ev0 show ?thesis by auto
  qed
qed

text \<open>
  C3, as stated, fails: when the rewrite of the full cycle fails, the cycle ends with that
  error and the step that drops deleted contents is not attempted. Here the rewrite is due
  and its body reports an error.
\<close>

theorem full_cycle_failed_rewrite_counterexample:
  "GetSchedule (exampleRepository\<lparr>taskOutcome := (\<lambda>t. Some (Errorf ''storage failure''))\<rparr>)
     = Inr exampleSchedule \<and>
   shouldFullRewriteContents exampleSchedule exampleSafety \<and>
   runFullMaintenance sortByStartDescending
       (exampleRepository\<lparr>taskOutcome := (\<lambda>t. Some (Errorf ''storage failure''))\<rparr>)
       \<lparr>Mode = ModeFull, Params = exampleParams, MaintenanceStartTime = exampleNow\<rparr>
       exampleSafety =
     (Some (Wrap (Errorf ''storage failure'') ''error rewriting contents in short packs''),
      exampleRepository
        \<lparr>repTime := exampleNow + 1000000000,
         scheduleBlob := Inr (exampleSchedule\<lparr>Runs := [TaskRewriteContentsFull \<mapsto>
           [\<lparr>Start = exampleNow, End = exampleNow + 1000000000, Success = False\<rparr>]]\<rparr>),
         taskOutcome := (\<lambda>t. Some (Errorf ''storage failure'')),
         events := [Ran TaskRewriteContentsFull]\<rparr>) \<and>
   \<not> list_ex isDropAttempt
       (newEvents (exampleRepository\<lparr>taskOutcome := (\<lambda>t. Some (Errorf ''storage failure''))\<rparr>)
          (snd (runFullMaintenance sortByStartDescending
             (exampleRepository\<lparr>taskOutcome := (\<lambda>t. Some (Errorf ''storage failure''))\<rparr>)
             \<lparr>Mode = ModeFull, Params = exampleParams, MaintenanceStartTime = exampleNow\<rparr>
             exampleSafety)))"
  by (simp add: example_defs GetSchedule_def SetSchedule_def shouldFullRewriteContents_def
      maxEndTime_def runsOf_def IsZero_def runFullMaintenance_def fullRewriteStep_def
      runTaskRewriteContentsFull_def ReportRun_def runTaskBody_def Let_def newEvents_def)

text \<open>
  The step that drops deleted contents leaves its mark in the events exactly when the rewrite
  step did not fail.
\<close>

lemma full_cycle_drop_attempted:
  assumes "GetSchedule rep = Inr s"
  shows
    "list_ex isDropAttempt
       (newEvents rep (snd (runFullMaintenance sort_Slice rep runParams safety))) \<longleftrightarrow>
     (\<not> shouldFullRewriteContents s safety \<or> taskOutcome rep TaskRewriteContentsFull = None)"
proof -
  obtain e1 s1 rep1 where rw: "fullRewriteStep rep runParams s safety = (e1, s1, rep1)"
    by (metis prod_cases3)
  from fullRewriteStep_result [OF rw]
  have ok: "e1 = None \<longleftrightarrow> \<not> shouldFullRewriteContents s safety \<or> taskOutcome rep TaskRewriteContentsFull = None"
    and "\<exists>e. events rep1 = events rep @ [e] \<and> \<not> isDropAttempt e" by simp_all
  then obtain ev1 where ev1: "events rep1 = events rep @ [ev1]" "\<not> isDropAttempt ev1" by blast
  show ?thesis
  proof (cases e1)
    case (Some err)
    with assms rw have "runFullMaintenance sort_Slice rep runParams safety = (Some err, rep1)"
      by (simp add: runFullMaintenance_def)
    with ev1 ok Some show ?thesis by (simp add: newEvents_def)
  next
    case None
    obtain e2 s2 rep2 where dr: "fullDropStep sort_Slice rep1 runParams s1 safety = (e2, s2, rep2)"
      by (metis prod_cases3)
    from fullDropStep_events [OF dr] obtain ev2 more2 where
      ev2: "events rep2 = events rep1 @ ev2 # more2" "isDropAttempt ev2" by blast
    have "\<exists>more. events (snd (runFullMaintenance sort_Slice rep runParams safety)) = events rep2 @ more"
    proof (cases e2)
      case (Some err)
      with assms rw None dr have "runFullMaintenance sort_Slice rep runParams safety = (Some err, rep2)"
        by (simp add: runFullMaintenance_def)
      then show ?thesis by simp
    next
      case None2: None
      obtain e3 s3 rep3 where del: "fullDeleteStep rep2 runParams s2 safety = (e3, s3, rep3)"
        by (metis prod_cases3)
      from fullDeleteStep_events [OF del] obtain more3 where ev3: "events rep3 = events rep2 @ more3" ..
      show ?thesis
      proof (cases e3)
        case (Some err)
        with assms rw None dr None2 del
        have "runFullMaintenance sort_Slice rep runParams safety = (Some err, rep3)"
          by (simp add: runFullMaintenance_def)
        with ev3 show ?thesis by simp
      next
        case None3: None
        obtain e4 rep4 where fin: "fullFinalSteps rep3 runParams s3 = (e4, rep4)"
          by (metis prod.exhaust)
        from fullFinalSteps_events [OF fin] obtain more4 where "events rep4 = events rep3 @ more4" ..
        moreover from assms rw None dr None2 del None3 fin
        have "runFullMaintenance sort_Slice rep runParams safety = (e4, rep4)"
          by (simp add: runFullMaintenance_def)
        ultimately show ?thesis using ev3 by simp
      qed
    qed
    then obtain more where
      "events (snd (runFullMaintenance sort_Slice rep runParams safety)) = events rep2 @ more" ..
    with ev1 ev2 have "newEvents rep (snd (runFullMaintenance sort_Slice rep runParams safety))
        = ev1 # ev2 # more2 @ more"
      by (simp add: newEvents_def)
    with ev2 ok None show ?thesis by simp
  qed
qed


text \<open>A rewrite that is due and whose body fails ends the rewrite step with the wrapped error.\<close>

lemma fullRewriteStep_failure:
  assumes "shouldFullRewriteContents s safety"
    and "taskOutcome rep TaskRewriteContentsFull = Some err"
  shows "\<exists>s1 rep1.
           fullRewriteStep rep runParams s safety =
             (Some (Wrap err ''error rewriting contents in short packs''), s1, rep1) \<and>
           events rep1 = events rep @ [Ran TaskRewriteContentsFull]"
proof -
  obtain e0 s0 rep0 where run:
    "ReportRun rep TaskRewriteContentsFull s (runTaskBody TaskRewriteContentsFull) = (e0, s0, rep0)"
    by (metis prod_cases3)
  from ReportRun_body [OF run] assms(2) have "e0 = Some err"
    and "events rep0 = events rep @ [Ran TaskRewriteContentsFull]" by simp_all
  with assms(1) run show ?thesis
    by (simp add: fullRewriteStep_def runTaskRewriteContentsFull_def)
qed

text \<open>
  C3, amended: in every full cycle whose schedule can be read, the step that drops deleted
  contents is attempted exactly when the rewrite step did not fail, that is, when the rewrite
  was skipped as not due or its body succeeded. When the rewrite is due and its body fails,
  the cycle ends with that error, wrapped: it is what the cycle returns, and the failed
  rewrite is the only task of the cycle that has run.
\<close>

theorem full_cycle_drop_step:
  assumes "GetSchedule rep = Inr s"
  shows
    "(list_ex isDropAttempt
        (newEvents rep (snd (runFullMaintenance sort_Slice rep runParams safety))) \<longleftrightarrow>
      (\<not> shouldFullRewriteContents s safety \<or> taskOutcome rep TaskRewriteContentsFull = None)) \<and>
     (shouldFullRewriteContents s safety \<and> taskOutcome rep TaskRewriteContentsFull = Some err \<longrightarrow>
        fst (runFullMaintenance sort_Slice rep runParams safety) =
          Some (Wrap err ''error rewriting contents in short packs'') \<and>
        newEvents rep (snd (runFullMaintenance sort_Slice rep runParams safety)) =
          [Ran TaskRewriteContentsFull])"
proof (intro conjI impI)
  show "list_ex isDropAttempt
        (newEvents rep (snd (runFullMaintenance sort_Slice rep runParams safety))) \<longleftrightarrow>
      (\<not> shouldFullRewriteContents s safety \<or> taskOutcome rep TaskRewriteContentsFull = None)"
    using assms by (rule full_cycle_drop_attempted)
next
  assume fails: "shouldFullRewriteContents s safety \<and>
    taskOutcome rep TaskRewriteContentsFull = Some err"
  then obtain s1 rep1 where
    step: "fullRewriteStep rep runParams s safety =
             (Some (Wrap err ''error rewriting contents in short packs''), s1, rep1)"
    and ev: "events rep1 = events rep @ [Ran TaskRewriteContentsFull]"
    using fullRewriteStep_failure [of s safety rep err runParams] by blast
  from assms step have res: "runFullMaintenance sort_Slice rep runParams safety =
      (Some (Wrap err ''error rewriting contents in short packs''), rep1)"
    by (simp add: runFullMaintenance_def)
  show "fst (runFullMaintenance sort_Slice rep runParams safety) =
      Some (Wrap err ''error rewriting contents in short packs'')"
    by (simp add: res)
  show "newEvents rep (snd (runFullMaintenance sort_Slice rep runParams safety)) =
      [Ran TaskRewriteContentsFull]"
    by (simp add: res ev newEvents_def)
qed

theorem full_cycle_drop_step_witness:
  "list_ex isDropAttempt
     (newEvents exampleRepository (snd (runFullMaintenance sortByStartDescending exampleRepository
        \<lparr>Mode = ModeFull, Params = exampleParams, MaintenanceStartTime = exampleNow\<rparr>
        exampleSafety))) \<and>
   list_ex isDropAttempt
     (newEvents (exampleRepository\<lparr>scheduleBlob := Inr exampleScheduleRewritten\<rparr>)
       (snd (runFullMaintenance sortByStartDescending
          (exampleRepository\<lparr>scheduleBlob := Inr exampleScheduleRewritten\<rparr>)
          \<lparr>Mode = ModeFull, Params = exampleParams, MaintenanceStartTime = exampleNow\<rparr>
          exampleSafety))) \<and>
   fst (runFullMaintenance sortByStartDescending
          (exampleRepository\<lparr>taskOutcome := (\<lambda>t. Some (Errorf ''quota exceeded''))\<rparr>)
          \<lparr>Mode = ModeFull, Params = exampleParams, MaintenanceStartTime = exampleNow\<rparr>
          exampleSafety) =
     Some (Wrap (Errorf ''quota exceeded'') ''error rewriting contents in short packs'') \<and>
   newEvents (exampleRepository\<lparr>taskOutcome := (\<lambda>t. Some (Errorf ''quota exceeded''))\<rparr>)
     (snd (runFullMaintenance sortByStartDescending
          (exampleRepository\<lparr>taskOutcome := (\<lambda>t. Some (Errorf ''quota exceeded''))\<rparr>)
          \<lparr>Mode = ModeFull, Params = exampleParams, MaintenanceStartTime = exampleNow\<rparr>
          exampleSafety)) =
     [Ran TaskRewriteContentsFull]"
proof -
  let ?rp = "\<lparr>Mode = ModeFull, Params = exampleParams, MaintenanceStartTime = exampleNow\<rparr>"
  let ?failing = "exampleRepository\<lparr>taskOutcome := (\<lambda>t. Some (Errorf ''quota exceeded''))\<rparr>"
  have due: "shouldFullRewriteContents exampleSchedule exampleSafety"
    by (simp add: example_defs shouldFullRewriteContents_def maxEndTime_def runsOf_def IsZero_def)
  have blocked: "\<not> shouldFullRewriteContents exampleScheduleRewritten exampleSafety"
    by (simp add: example_defs task_defs shouldFullRewriteContents_def maxEndTime_def runsOf_def
        IsZero_def Before_def After_def Minute_def)
  have ok: "taskOutcome exampleRepository TaskRewriteContentsFull = None"
    by (simp add: example_defs)
  have bad: "taskOutcome ?failing TaskRewriteContentsFull = Some (Errorf ''quota exceeded'')"
    by simp
  have s1: "GetSchedule exampleRepository = Inr exampleSchedule"
    by (simp add: example_defs GetSchedule_def)
  have s2: "GetSchedule (exampleRepository\<lparr>scheduleBlob := Inr exampleScheduleRewritten\<rparr>)
      = Inr exampleScheduleRewritten"
    by (simp add: GetSchedule_def)
  have s3: "GetSchedule ?failing = Inr exampleSchedule"
    by (simp add: example_defs GetSchedule_def)
  show ?thesis
    using full_cycle_drop_step [OF s1, of sortByStartDescending ?rp exampleSafety]
      full_cycle_drop_step [OF s2, of sortByStartDescending ?rp exampleSafety]
      full_cycle_drop_step [OF s3, of sortByStartDescending ?rp exampleSafety
        "Errorf ''quota exceeded''"]
      due blocked ok bad
    by simp
qed

subsection \<open>The quick cycle\<close>

lemma hadRecentFullRewrite_iff:
  "hadRecentFullRewrite s \<longleftrightarrow>
     latestSuccessfulEnd (runsOf s TaskRewriteContentsQuick)
       \<le> latestSuccessfulEnd (runsOf s TaskRewriteContentsFull)"
  by (auto simp: hadRecentFullRewrite_def maxEndTime_latest Before_def)

lemma quickDeleteStep_events:
  assumes "quickDeleteStep rep runParams s safety = (err, s1, rep1)"
    and "shouldDeleteOrphanedPacks (repTime rep) s safety"
  shows "events rep1 = events rep @
           [Ran (if hadRecentFullRewrite s then TaskDeleteOrphanedBlobsFull
                 else TaskDeleteOrphanedBlobsQuick)]"
proof (cases "hadRecentFullRewrite s")
  case True
  obtain e0 s0 rep0 where run:
    "ReportRun rep TaskDeleteOrphanedBlobsFull s (runTaskBody TaskDeleteOrphanedBlobsFull) = (e0, s0, rep0)"
    by (metis prod_cases3)
  from assms True run have "rep1 = rep0"
    by (auto simp: quickDeleteStep_def runTaskDeleteOrphanedBlobsFull_def split: option.splits)
  with ReportRun_body [OF run] True show ?thesis by simp
next
  case False
  obtain e0 s0 rep0 where run:
    "ReportRun rep TaskDeleteOrphanedBlobsQuick s (runTaskBody TaskDeleteOrphanedBlobsQuick) = (e0, s0, rep0)"
    by (metis prod_cases3)
  from assms False run have "rep1 = rep0"
    by (auto simp: quickDeleteStep_def runTaskDeleteOrphanedBlobsQuick_def split: option.splits)
  with ReportRun_body [OF run] False show ?thesis by simp
qed

lemma quickFinalSteps_events:
  assumes "quickFinalSteps rep runParams s safety = (err, rep1)"
  shows "\<exists>more. events rep1 = events rep @ more \<and>
           set more \<subseteq> {Ran TaskIndexCompaction, Ran TaskCleanupLogs}"
proof -
  obtain e0 s0 rep0 where ic: "runTaskIndexCompactionQuick rep runParams s safety = (e0, s0, rep0)"
    by (metis prod_cases3)
  then have ev0: "events rep0 = events rep @ [Ran TaskIndexCompaction]"
    using ReportRun_body [of rep TaskIndexCompaction s e0 s0 rep0]
    by (simp add: runTaskIndexCompactionQuick_def)
  show ?thesis
  proof (cases e0)
    case (Some e)
    with assms ic have "rep1 = rep0" by (simp add: quickFinalSteps_def)
    with ev0 show ?thesis by simp
  next
    case None
    obtain e2 s2 rep2 where logs: "runTaskCleanupLogs rep0 runParams s0 = (e2, s2, rep2)"
      by (metis prod_cases3)
    then have ev2: "events rep2 = events rep0 @ [Ran TaskCleanupLogs]"
      using ReportRun_body [of rep0 TaskCleanupLogs s0 e2 s2 rep2]
      by (simp add: runTaskCleanupLogs_def)
    from assms ic None logs have "rep1 = rep2"
      by (auto simp: quickFinalSteps_def split: option.splits)
    with ev0 ev2 show ?thesis by simp
  qed
qed

text \<open>
  C6. In a quick cycle that reaches the deletion step (no epoch manager, the schedule read,
  the rewrite step not failed) with the deletion of orphaned blobs due, the task that runs
  next is the full deletion when the latest successful full-rewrite end is not before the
  latest successful quick-rewrite end (equal ends included), and the quick deletion
  otherwise; the other deletion task does not run: only index compaction and log cleanup may
  follow. \<open>s1\<close> and \<open>rep1\<close> are the history and the repository after the rewrite step.
\<close>

theorem quick_cycle_deletion_choice:
  assumes "\<not> epochManagerOk rep" and "epochManagerErr rep = None"
    and "GetSchedule rep = Inr s"
    and "quickRewriteStep rep runParams s safety = (None, s1, rep1)"
    and "shouldDeleteOrphanedPacks (repTime rep1) s1 safety"
  shows "\<exists>more.
           events (snd (runQuickMaintenance rep runParams safety)) =
             events rep1 @
               Ran (if latestSuccessfulEnd (runsOf s1 TaskRewriteContentsQuick)
                         \<le> latestSuccessfulEnd (runsOf s1 TaskRewriteContentsFull)
                    then TaskDeleteOrphanedBlobsFull else TaskDeleteOrphanedBlobsQuick) # more \<and>
           set more \<subseteq> {Ran TaskIndexCompaction, Ran TaskCleanupLogs}"
proof -
  let ?chosen = "if latestSuccessfulEnd (runsOf s1 TaskRewriteContentsQuick)
                         \<le> latestSuccessfulEnd (runsOf s1 TaskRewriteContentsFull)
                    then TaskDeleteOrphanedBlobsFull else TaskDeleteOrphanedBlobsQuick"
  obtain e2 s2 rep2 where del: "quickDeleteStep rep1 runParams s1 safety = (e2, s2, rep2)"
    by (metis prod_cases3)
  from quickDeleteStep_events [OF del assms(5)]
  have ev2: "events rep2 = events rep1 @ [Ran ?chosen]"
    by (simp add: hadRecentFullRewrite_iff)
  show ?thesis
  proof (cases e2)
    case (Some err)
    with assms del have "runQuickMaintenance rep runParams safety = (Some err, rep2)"
      by (simp add: runQuickMaintenance_def)
    with ev2 show ?thesis by simp
  next
    case None
    obtain e3 rep3 where fin: "quickFinalSteps rep2 runParams s2 safety = (e3, rep3)"
      by (metis prod.exhaust)
    from quickFinalSteps_events [OF fin] obtain more where
      more: "events rep3 = events rep2 @ more"
        "set more \<subseteq> {Ran TaskIndexCompaction, Ran TaskCleanupLogs}" by blast
    from assms del None fin have "runQuickMaintenance rep runParams safety = (e3, rep3)"
      by (simp add: runQuickMaintenance_def)
    with ev2 more show ?thesis by simp
  qed
qed


theorem quick_cycle_deletion_choice_witness:
  "\<exists>more.
     events (snd (runQuickMaintenance
        (exampleRepository\<lparr>scheduleBlob := Inr exampleScheduleRewritten\<rparr>)
        \<lparr>Mode = ModeQuick, Params = exampleParams, MaintenanceStartTime = exampleNow\<rparr>
        exampleSafety)) =
       [InfoNotRewritingContents, Ran TaskDeleteOrphanedBlobsFull] @ more \<and>
     set more \<subseteq> {Ran TaskIndexCompaction, Ran TaskCleanupLogs}"
proof -
  let ?rep = "exampleRepository\<lparr>scheduleBlob := Inr exampleScheduleRewritten\<rparr>"
  let ?rp = "\<lparr>Mode = ModeQuick, Params = exampleParams, MaintenanceStartTime = exampleNow\<rparr>"
  have h1: "\<not> epochManagerOk ?rep" and h2: "epochManagerErr ?rep = None"
    by (simp_all add: example_defs)
  have h3: "GetSchedule ?rep = Inr exampleScheduleRewritten"
    by (simp add: GetSchedule_def)
  have blocked: "\<not> shouldQuickRewriteContents exampleScheduleRewritten exampleSafety"
    by (simp add: example_defs task_defs shouldQuickRewriteContents_def maxEndTime_def runsOf_def
        IsZero_def Before_def After_def Minute_def)
  then have h4: "quickRewriteStep ?rep ?rp exampleScheduleRewritten exampleSafety =
      (None, exampleScheduleRewritten, notRewritingContents ?rep)"
    by (simp add: quickRewriteStep_def)
  have h5: "shouldDeleteOrphanedPacks (repTime (notRewritingContents ?rep))
      exampleScheduleRewritten exampleSafety"
    by (simp add: example_defs task_defs shouldDeleteOrphanedPacks_def nextBlobDeleteTime_def
        maxEndTime_def runsOf_def IsZero_def Before_def After_def Add_def Minute_def
        notRewritingContents_def logEvent_def)
  have full: "latestSuccessfulEnd (runsOf exampleScheduleRewritten TaskRewriteContentsQuick)
      \<le> latestSuccessfulEnd (runsOf exampleScheduleRewritten TaskRewriteContentsFull)"
    by (simp add: example_defs task_defs runsOf_def latestSuccessfulEnd_def)
  have before: "events (notRewritingContents ?rep) = [InfoNotRewritingContents]"
    by (simp add: notRewritingContents_def logEvent_def example_defs)
  from quick_cycle_deletion_choice [OF h1 h2 h3 h4 h5]
  show ?thesis
    unfolding before using full by simp
qed

end
